theory Spec2Isabelle
  imports Main
begin

section \<open>Strings and paths\<close>

text \<open>
  The video service handles file names with \<^verbatim>\<open>pathlib.Path\<close> (routes.py) and
  \<^verbatim>\<open>os.path.join\<close> (processor.py) on a POSIX system. A path is modelled by the
  string \<^verbatim>\<open>str(path)\<close>, and a string by the bytes of its UTF-8 encoding. The
  separator \<^verbatim>\<open>/\<close> and the dot are ASCII and no byte of a code point outside ASCII is an
  ASCII byte, so splitting a path and finding its suffix give the same on bytes as on
  code points.
\<close>

type_synonym path = string
type_synonym bytes = string

text \<open>\<^verbatim>\<open>s.split(sep)\<close> for a one-character separator.\<close>

fun split_sep :: "char \<Rightarrow> string \<Rightarrow> string list" where
  "split_sep c [] = [[]]"
| "split_sep c (x # xs) =
     (if x = c then [] # split_sep c xs
      else (case split_sep c xs of
              [] \<Rightarrow> [[x]]
            | y # ys \<Rightarrow> (x # y) # ys))"

text \<open>\<^verbatim>\<open>sep.join(parts)\<close>.\<close>

fun join_sep :: "char \<Rightarrow> string list \<Rightarrow> string" where
  "join_sep c [] = []"
| "join_sep c [p] = p"
| "join_sep c (p # q # ps) = p @ c # join_sep c (q # ps)"

definition lower_char :: "char \<Rightarrow> char" where
  "lower_char c =
     (case map_of (zip ''ABCDEFGHIJKLMNOPQRSTUVWXYZ'' ''abcdefghijklmnopqrstuvwxyz'') c of
        None \<Rightarrow> c
      | Some d \<Rightarrow> d)"

text \<open>
  \<^verbatim>\<open>s.lower()\<close>. The capital letters of ASCII go to their small letters. Of the code
  points outside ASCII, U+212A KELVIN SIGN (bytes E2 84 AA) goes to \<^verbatim>\<open>k\<close>, and U+0130
  (bytes C4 B0) to \<^verbatim>\<open>i\<close> followed by U+0307 (bytes CC 87). The lower-case form of every
  other code point outside ASCII lies outside ASCII again: its bytes are kept as they
  are here, which the comparisons with ASCII strings that the code makes of the result
  cannot tell from the true form.
\<close>

fun lower :: "string \<Rightarrow> string" where
  "lower (a # b # c # cs) =
     (if a = CHR 0xE2 \<and> b = CHR 0x84 \<and> c = CHR 0xAA then CHR ''k'' # lower cs
      else if a = CHR 0xC4 \<and> b = CHR 0xB0 then
        CHR ''i'' # CHR 0xCC # CHR 0x87 # lower (c # cs)
      else lower_char a # lower (b # c # cs))"
| "lower [a, b] =
     (if a = CHR 0xC4 \<and> b = CHR 0xB0 then [CHR ''i'', CHR 0xCC, CHR 0x87]
      else [lower_char a, lower_char b])"
| "lower [a] = [lower_char a]"
| "lower [] = []"

text \<open>
  The components of a parsed path: pathlib splits at \<^verbatim>\<open>/\<close> and drops the empty
  components and the components \<^verbatim>\<open>.\<close>; \<^verbatim>\<open>..\<close> is kept.
\<close>

definition path_parts :: "path \<Rightarrow> string list" where
  "path_parts p = filter (\<lambda>x. x \<noteq> [] \<and> x \<noteq> ''.'') (split_sep CHR ''/'' p)"

text \<open>The root of a POSIX path: none, \<^verbatim>\<open>/\<close>, or \<^verbatim>\<open>//\<close> for exactly two leading slashes.\<close>

definition path_root :: "path \<Rightarrow> string" where
  "path_root p =
     (let n = length (takeWhile (\<lambda>x. x = CHR ''/'') p)
      in if n = 0 then [] else if n = 2 then ''//'' else ''/'')"

text \<open>\<^verbatim>\<open>str(Path(p))\<close>.\<close>

definition Path :: "string \<Rightarrow> path" where
  "Path p =
     (let s = path_root p @ join_sep CHR ''/'' (path_parts p)
      in if s = [] then ''.'' else s)"

text \<open>\<^verbatim>\<open>Path(p).name\<close>: the last component, or the empty string when there is none.\<close>

definition path_name :: "path \<Rightarrow> string" where
  "path_name p = (case rev (path_parts p) of [] \<Rightarrow> [] | n # _ \<Rightarrow> n)"

text \<open>\<^verbatim>\<open>s.rfind(c)\<close>, with \<open>None\<close> for Python's \<open>-1\<close>.\<close>

definition rfind :: "char \<Rightarrow> string \<Rightarrow> nat option" where
  "rfind c s =
     (let k = length (takeWhile (\<lambda>x. x \<noteq> c) (rev s))
      in if k = length s then None else Some (length s - 1 - k))"

text \<open>
  \<^verbatim>\<open>Path(p).suffix\<close>: from the last dot of the name on, unless that dot is the first
  or the last character of the name.
\<close>

definition path_suffix :: "path \<Rightarrow> string" where
  "path_suffix p =
     (let name = path_name p
      in case rfind CHR ''.'' name of
           None \<Rightarrow> []
         | Some i \<Rightarrow> if 0 < i \<and> i < length name - 1 then drop i name else [])"

text \<open>\<^verbatim>\<open>os.path.join(a, b)\<close> on POSIX.\<close>

definition os_path_join :: "string \<Rightarrow> string \<Rightarrow> string" where
  "os_path_join a b =
     (if b \<noteq> [] \<and> hd b = CHR ''/'' then b
      else if a = [] \<or> last a = CHR ''/'' then a @ b
      else a @ ''/'' @ b)"

text \<open>\<^verbatim>\<open>a / b\<close> on paths: the segments are joined, then parsed.\<close>

definition path_div :: "path \<Rightarrow> string \<Rightarrow> path" where
  "path_div a b = Path (os_path_join a b)"

definition UPLOAD_DIR :: path where
  "UPLOAD_DIR = ''uploads''"

definition PROCESSED_DIR :: path where
  "PROCESSED_DIR = ''processed''"

definition ALLOWED_VIDEO_EXTENSIONS :: "string set" where
  "ALLOWED_VIDEO_EXTENSIONS = {''.mp4'', ''.mov'', ''.mkv'', ''.avi'', ''.webm''}"

definition STATUS_CACHE_TTL_SECONDS :: nat where
  "STATUS_CACHE_TTL_SECONDS = 120"

text \<open>Decimal text of an integer, as an f-string renders it.\<close>

definition digit_char :: "nat \<Rightarrow> char" where
  "digit_char d = ''0123456789'' ! d"

fun str_nat :: "nat \<Rightarrow> string" where
  "str_nat n =
     (if n < 10 then [digit_char n]
      else str_nat (n div 10) @ [digit_char (n mod 10)])"

declare str_nat.simps [simp del]

definition str_int :: "int \<Rightarrow> string" where
  "str_int i = (if i < 0 then CHR ''-'' # str_nat (nat (- i)) else str_nat (nat i))"

section \<open>Data model\<close>

text \<open>
  The rows of \<^verbatim>\<open>shared.models\<close> as the services use them: a \<^verbatim>\<open>User\<close> with
  \<^verbatim>\<open>id\<close> and \<^verbatim>\<open>username\<close>, a \<^verbatim>\<open>Video\<close> with \<^verbatim>\<open>id\<close>, \<^verbatim>\<open>filename\<close>,
  \<^verbatim>\<open>user_id\<close> and \<^verbatim>\<open>status\<close>. The status is a string, as in the code.
\<close>

record user =
  u_id :: int
  username :: string

record video =
  v_id :: int
  filename :: string
  user_id :: int
  status :: string

text \<open>One entry of the status response: the keys \<^verbatim>\<open>id\<close>, \<^verbatim>\<open>filename\<close>, \<^verbatim>\<open>status\<close>.\<close>

type_synonym summary = "int \<times> string \<times> string"

text \<open>The body of a published event: \<^verbatim>\<open>video_id\<close>, \<^verbatim>\<open>user_id\<close> and, for an error, \<^verbatim>\<open>error\<close>.\<close>

record event_data =
  ev_video_id :: int
  ev_user_id :: int
  ev_error :: "string option"

text \<open>
  What reading one entry of a zip archive gives: its data; or \<^verbatim>\<open>BadZipFile\<close> raised
  by \<^verbatim>\<open>open\<close> (a bad header), before anything is read; or \<^verbatim>\<open>BadZipFile\<close> raised
  while the data is copied (a bad checksum), after the given part of it has been read.
\<close>

datatype 'a entry = Readable 'a | BadOpen | BadCopy 'a

text \<open>
  What a stored file holds: plain bytes, on which \<^verbatim>\<open>zipfile.ZipFile\<close> raises
  \<^verbatim>\<open>BadZipFile\<close>, or a zip archive whose directory can be read, given by its entries
  in archive order, each with its name and what reading it gives (the data of a file
  again).
\<close>

datatype fdata = Raw bytes | Zip "(string \<times> fdata entry) list"

text \<open>\<^verbatim>\<open>namelist()\<close>: the names of all entries, in archive order.\<close>

definition namelist :: "(string \<times> 'a) list \<Rightarrow> string list" where
  "namelist entries = map fst entries"

text \<open>
  \<^verbatim>\<open>open(name)\<close>: the archive looks the name up in a dictionary that was filled in
  archive order, so of several entries with one name the last is read; \<open>None\<close> is the
  \<^verbatim>\<open>KeyError\<close> for a name the archive does not have.
\<close>

definition zip_open :: "(string \<times> 'a) list \<Rightarrow> string \<Rightarrow> 'a option" where
  "zip_open entries name = map_of (rev entries) name"

record upload_file =
  up_filename :: string
  up_content :: fdata

datatype exn =
    HTTPException nat string
  | AttributeError
  | DatabaseError
  | BrokerError
  | KeyError
  | FfmpegError string

text \<open>\<^verbatim>\<open>str(e)\<close> for the exceptions the worker's handler can see.\<close>

fun str_exn :: "exn \<Rightarrow> string" where
  "str_exn (FfmpegError m) = m"
| "str_exn DatabaseError = ''database error''"
| "str_exn BrokerError = ''broker error''"
| "str_exn AttributeError = ''attribute error''"
| "str_exn KeyError = ''key error''"
| "str_exn (HTTPException c d) = d"

text \<open>
  The effects a request or a task run has on its collaborators, in the order they
  happen. A call to the cache, the event bus or the converter is recorded with its
  outcome (\<open>True\<close>: the call succeeded).
\<close>

datatype effect =
    DbCommit int string
  | CacheSetex string bool
  | CacheDelete string bool
  | Enqueue int
  | Publish string event_data bool
  | Convert path path bool

text \<open>
  The state the services share: the two tables, the Redis cache (key to time-to-live
  and value), the directories, the task queue, the events delivered to the exchange.
  The four schedules say, call by call, whether the next call to the database, the
  cache, the event bus or the task broker fails (\<open>True\<close>: it raises); an empty
  schedule means no failure.

  Not modelled: the expiry of a cache entry after its time-to-live, failures of the
  file system, and the database reads that SQLAlchemy makes on its own when an attribute
  or the relationship \<^verbatim>\<open>video.user\<close> of a row is read after a commit.
\<close>

record world =
  users :: "user list"
  videos :: "video list"
  cache :: "string \<rightharpoonup> nat \<times> summary list"
  files :: "path \<rightharpoonup> fdata"
  queue :: "int list"
  events :: "(string \<times> event_data) list"
  trace :: "effect list"
  db_faults :: "bool list"
  cache_faults :: "bool list"
  bus_faults :: "bool list"
  broker_faults :: "bool list"

definition next_fault :: "bool list \<Rightarrow> bool" where
  "next_fault fs = (case fs of [] \<Rightarrow> False | b # _ \<Rightarrow> b)"

definition log :: "effect \<Rightarrow> world \<Rightarrow> world" where
  "log e w = w\<lparr>trace := trace w @ [e]\<rparr>"

text \<open>A call to the database: whether it raises, and the world after the call.\<close>

definition db_call :: "world \<Rightarrow> bool \<times> world" where
  "db_call w = (next_fault (db_faults w), w\<lparr>db_faults := tl (db_faults w)\<rparr>)"

definition cache_call :: "world \<Rightarrow> bool \<times> world" where
  "cache_call w = (next_fault (cache_faults w), w\<lparr>cache_faults := tl (cache_faults w)\<rparr>)"

definition bus_call :: "world \<Rightarrow> bool \<times> world" where
  "bus_call w = (next_fault (bus_faults w), w\<lparr>bus_faults := tl (bus_faults w)\<rparr>)"

definition broker_call :: "world \<Rightarrow> bool \<times> world" where
  "broker_call w = (next_fault (broker_faults w), w\<lparr>broker_faults := tl (broker_faults w)\<rparr>)"

text \<open>\<^verbatim>\<open>db.query(User).filter(User.username == name).first()\<close>.\<close>

definition user_by_name :: "string \<Rightarrow> world \<Rightarrow> user option" where
  "user_by_name name w = find (\<lambda>u. username u = name) (users w)"

text \<open>\<^verbatim>\<open>db.query(Video).filter(Video.id == video_id).first()\<close>.\<close>

definition video_by_id :: "int \<Rightarrow> world \<Rightarrow> video option" where
  "video_by_id i w = find (\<lambda>v. v_id v = i) (videos w)"

text \<open>The relationship \<^verbatim>\<open>video.user\<close>: the row the foreign key points to, if any.\<close>

definition video_user :: "video \<Rightarrow> world \<Rightarrow> user option" where
  "video_user v w = find (\<lambda>u. u_id u = user_id v) (users w)"

text \<open>
  Modelled from the spec: the \<^verbatim>\<open>Video\<close> model of \<^verbatim>\<open>shared.models\<close> is not part
  of the sources. A job is created in state \<^verbatim>\<open>queued\<close>, and its id is assigned at
  creation and unique: here, one more than the largest id in the table.
\<close>

definition DEFAULT_STATUS :: string where
  "DEFAULT_STATUS = ''queued''"

definition fresh_id :: "video list \<Rightarrow> int" where
  "fresh_id vs = fold max (map v_id vs) 0 + 1"

text \<open>Committing the session's pending status of one row.\<close>

definition set_status :: "int \<Rightarrow> string \<Rightarrow> video list \<Rightarrow> video list" where
  "set_status i s vs = map (\<lambda>v. if v_id v = i then v\<lparr>status := s\<rparr> else v) vs"

definition write_file :: "path \<Rightarrow> fdata \<Rightarrow> world \<Rightarrow> world" where
  "write_file p d w = w\<lparr>files := (files w)(p \<mapsto> d)\<rparr>"

definition unlink :: "path \<Rightarrow> world \<Rightarrow> world" where
  "unlink p w = w\<lparr>files := (files w)(p := None)\<rparr>"

section \<open>The status cache (routes.py)\<close>

definition status_cache_key :: "string \<Rightarrow> string" where
  "status_cache_key name = ''videos:status:'' @ name"

text \<open>
  \<^verbatim>\<open>_get_cached_status\<close>: the cached list, or \<open>None\<close> when the key is absent or the
  cache raises. The JSON text of the value is modelled by the value itself.
\<close>

definition get_cached_status :: "string \<Rightarrow> world \<Rightarrow> summary list option \<times> world" where
  "get_cached_status name w =
     (case cache_call w of
        (True, w1) \<Rightarrow> (None, w1)
      | (False, w1) \<Rightarrow>
          (case cache w1 (status_cache_key name) of
             None \<Rightarrow> (None, w1)
           | Some (ttl, cached) \<Rightarrow> (Some cached, w1)))"

definition set_cached_status :: "string \<Rightarrow> summary list \<Rightarrow> world \<Rightarrow> world" where
  "set_cached_status name data w =
     (case cache_call w of
        (True, w1) \<Rightarrow> log (CacheSetex (status_cache_key name) False) w1
      | (False, w1) \<Rightarrow>
          log (CacheSetex (status_cache_key name) True)
            (w1\<lparr>cache := (cache w1)(status_cache_key name \<mapsto> (STATUS_CACHE_TTL_SECONDS, data))\<rparr>))"

definition invalidate_status_cache :: "string \<Rightarrow> world \<Rightarrow> world" where
  "invalidate_status_cache name w =
     (case cache_call w of
        (True, w1) \<Rightarrow> log (CacheDelete (status_cache_key name) False) w1
      | (False, w1) \<Rightarrow>
          log (CacheDelete (status_cache_key name) True)
            (w1\<lparr>cache := (cache w1)(status_cache_key name := None)\<rparr>))"

section \<open>Submission (routes.py, \<^verbatim>\<open>upload_video\<close>)\<close>

text \<open>
  The request handler, statement by statement. The result is the exception raised or
  the response \<^verbatim>\<open>{"video_id": id, "status": "queued"}\<close>, with the world as the
  handler leaves it in either case. In the archive branch the entry that
  \<^verbatim>\<open>zip_ref.open(member)\<close> reads is copied to the target; \<^verbatim>\<open>BadZipFile\<close> raised by
  \<^verbatim>\<open>ZipFile\<close>, by \<^verbatim>\<open>open\<close> or by the copy is answered with status 400, and the
  \<^verbatim>\<open>finally\<close> block removes the temporary file on every way out. Failures of the file
  system itself are not modelled.
\<close>

definition upload_video :: "upload_file \<Rightarrow> string \<Rightarrow> world \<Rightarrow> (exn + int \<times> string) \<times> world" where
  "upload_video file current_user w =
     (case db_call w of
        (True, w0) \<Rightarrow> (Inl DatabaseError, w0)
      | (False, w0) \<Rightarrow>
     (case user_by_name current_user w0 of
        None \<Rightarrow> (Inl (HTTPException 404 ''User not found''), w0)
      | Some user \<Rightarrow>
     (let original_filename = up_filename file;
          tmp_path = path_div UPLOAD_DIR original_filename;
          w1 = write_file tmp_path (up_content file) w0;
          saved =
            (if lower (path_suffix tmp_path) = ''.zip'' then
               (case up_content file of
                  Raw b \<Rightarrow> (Inl (HTTPException 400 ''Invalid zip file''), unlink tmp_path w1)
                | Zip entries \<Rightarrow>
                    (case filter (\<lambda>m. lower (path_suffix m) \<in> ALLOWED_VIDEO_EXTENSIONS)
                            (namelist entries) of
                       [] \<Rightarrow>
                         (Inl (HTTPException 400
                            ''Zip must contain a video file (.mp4, .mov, .mkv, .avi, .webm)''),
                          unlink tmp_path w1)
                     | member # rest \<Rightarrow>
                         (let target_path = path_div UPLOAD_DIR (path_name member)
                          in case zip_open entries member of
                               None \<Rightarrow> (Inl KeyError, unlink tmp_path w1)
                             | Some BadOpen \<Rightarrow>
                                 (Inl (HTTPException 400 ''Invalid zip file''), unlink tmp_path w1)
                             | Some (BadCopy part) \<Rightarrow>
                                 (Inl (HTTPException 400 ''Invalid zip file''),
                                  unlink tmp_path (write_file target_path part w1))
                             | Some (Readable d) \<Rightarrow>
                                 (Inr (path_name target_path),
                                  unlink tmp_path (write_file target_path d w1)))))
             else if lower (path_suffix tmp_path) \<notin> ALLOWED_VIDEO_EXTENSIONS then
               (Inl (HTTPException 400 ''Unsupported video format''), w1)
             else (Inr original_filename, w1))
      in case saved of
           (Inl e, w3) \<Rightarrow> (Inl e, w3)
         | (Inr final_filename, w3) \<Rightarrow>
     (case db_call w3 of
        (True, w4) \<Rightarrow> (Inl DatabaseError, w4)
      | (False, w4) \<Rightarrow>
     (let vid = fresh_id (videos w4);
          video = \<lparr>v_id = vid, filename = final_filename, user_id = u_id user,
                    status = DEFAULT_STATUS\<rparr>;
          w5 = log (DbCommit vid DEFAULT_STATUS) (w4\<lparr>videos := videos w4 @ [video]\<rparr>)
      in case db_call w5 of
           (True, w6) \<Rightarrow> (Inl DatabaseError, w6)
         | (False, w6) \<Rightarrow>
     (let w7 = invalidate_status_cache current_user w6
      in case broker_call w7 of
           (True, w8) \<Rightarrow> (Inl BrokerError, w8)
         | (False, w8) \<Rightarrow>
             (Inr (vid, ''queued''), log (Enqueue vid) (w8\<lparr>queue := queue w8 @ [vid]\<rparr>))))))))"

section \<open>Status and download (routes.py)\<close>

definition get_status :: "string \<Rightarrow> world \<Rightarrow> (exn + summary list) \<times> world" where
  "get_status current_user w =
     (case get_cached_status current_user w of
        (Some cached, w1) \<Rightarrow> (Inr cached, w1)
      | (None, w1) \<Rightarrow>
     (case db_call w1 of
        (True, w2) \<Rightarrow> (Inl DatabaseError, w2)
      | (False, w2) \<Rightarrow>
     (case user_by_name current_user w2 of
        None \<Rightarrow> (Inl AttributeError, w2)
      | Some user \<Rightarrow>
     (case db_call w2 of
        (True, w3) \<Rightarrow> (Inl DatabaseError, w3)
      | (False, w3) \<Rightarrow>
     (let vs = filter (\<lambda>v. user_id v = u_id user) (videos w3);
          response = map (\<lambda>v. (v_id v, filename v, status v)) vs
      in (Inr response, set_cached_status current_user response w3))))))"

text \<open>\<^verbatim>\<open>Path(p).stem\<close>: the name without its suffix.\<close>

definition path_stem :: "path \<Rightarrow> string" where
  "path_stem p =
     (let name = path_name p
      in case rfind CHR ''.'' name of
           None \<Rightarrow> name
         | Some i \<Rightarrow> if 0 < i \<and> i < length name - 1 then take i name else name)"

text \<open>
  \<^verbatim>\<open>download_video\<close>: the exception raised, or the path and the download name of
  the \<^verbatim>\<open>FileResponse\<close>.
\<close>

definition download_video :: "int \<Rightarrow> string \<Rightarrow> world \<Rightarrow> (exn + path \<times> string) \<times> world" where
  "download_video video_id current_user w =
     (case db_call w of
        (True, w0) \<Rightarrow> (Inl DatabaseError, w0)
      | (False, w0) \<Rightarrow>
     (case video_by_id video_id w0 of
        None \<Rightarrow> (Inl (HTTPException 404 ''Video not found or not ready''), w0)
      | Some video \<Rightarrow>
     (case video_user video w0 of
        None \<Rightarrow> (Inl AttributeError, w0)
      | Some owner \<Rightarrow>
          if username owner \<noteq> current_user \<or> status video \<noteq> ''completed'' then
            (Inl (HTTPException 404 ''Video not found or not ready''), w0)
          else
            (let converted_path = path_div PROCESSED_DIR (str_int video_id @ ''_converted.mp4'')
             in case files w0 converted_path of
                  None \<Rightarrow> (Inl (HTTPException 404 ''Converted file missing''), w0)
                | Some converted \<Rightarrow>
                    (let base_name = path_stem (filename video);
                         zip_path = path_div PROCESSED_DIR (str_int video_id @ ''.zip'');
                         arcname = base_name @ ''_converted.mp4'';
                         w1 = write_file zip_path (Zip [(arcname, Readable converted)]) w0
                     in (Inr (zip_path, base_name @ ''_converted.zip''), w1))))))"

section \<open>The worker (processor.py, celery_app.py)\<close>

text \<open>
  The converter is an external tool: a run of
  \<^verbatim>\<open>ffmpeg.input(input_path).output(output_path).run()\<close> is a function of the
  directories and the two paths, giving the message of the error it raises, if any, and
  the directories as it leaves them.
\<close>

type_synonym ffmpeg = "(path \<rightharpoonup> fdata) \<Rightarrow> path \<Rightarrow> path \<Rightarrow> string option \<times> (path \<rightharpoonup> fdata)"

text \<open>
  \<^verbatim>\<open>_invalidate_status_cache(video)\<close> of processor.py: nothing is deleted when the
  video has no user or the user name is empty.
\<close>

definition processor_invalidate_status_cache :: "video \<Rightarrow> world \<Rightarrow> world" where
  "processor_invalidate_status_cache v w =
     (case video_user v w of
        None \<Rightarrow> w
      | Some u \<Rightarrow>
          if username u = [] then w
          else
            (case cache_call w of
               (True, w1) \<Rightarrow> log (CacheDelete (''videos:status:'' @ username u) False) w1
             | (False, w1) \<Rightarrow>
                 log (CacheDelete (''videos:status:'' @ username u) True)
                   (w1\<lparr>cache := (cache w1)(''videos:status:'' @ username u := None)\<rparr>)))"

definition publish_video_event :: "string \<Rightarrow> event_data \<Rightarrow> world \<Rightarrow> world" where
  "publish_video_event event_type data w =
     (case bus_call w of
        (True, w1) \<Rightarrow> log (Publish event_type data False) w1
      | (False, w1) \<Rightarrow>
          log (Publish event_type data True) (w1\<lparr>events := events w1 @ [(event_type, data)]\<rparr>))"

text \<open>
  \<^verbatim>\<open>process_video\<close>: \<open>Inr ()\<close> when it returns, \<open>Inl e\<close> when it raises \<open>e\<close>.
  \<open>attempt\<close> is the \<^verbatim>\<open>try\<close> block, with the exception it raised, if any; the
  \<^verbatim>\<open>except\<close> block follows it.
\<close>

definition process_video :: "ffmpeg \<Rightarrow> int \<Rightarrow> world \<Rightarrow> (exn + unit) \<times> world" where
  "process_video ffmpeg_run video_id w =
     (case db_call w of
        (True, w0) \<Rightarrow> (Inl DatabaseError, w0)
      | (False, w0) \<Rightarrow>
     (case video_by_id video_id w0 of
        None \<Rightarrow> (Inr (), w0)
      | Some video \<Rightarrow>
     (let input_path = os_path_join UPLOAD_DIR (filename video);
          output_path = os_path_join PROCESSED_DIR (str_int video_id @ ''_converted.mp4'');
          attempt =
            (case ffmpeg_run (files w0) input_path output_path of
               (Some msg, fs) \<Rightarrow>
                 (Some (FfmpegError msg),
                  log (Convert input_path output_path False) (w0\<lparr>files := fs\<rparr>))
             | (None, fs) \<Rightarrow>
                 (let w1 = log (Convert input_path output_path True) (w0\<lparr>files := fs\<rparr>)
                  in case db_call w1 of
                       (True, w2) \<Rightarrow> (Some DatabaseError, w2)
                     | (False, w2) \<Rightarrow>
                         (let w3 = log (DbCommit video_id ''completed'')
                                     (w2\<lparr>videos := set_status video_id ''completed'' (videos w2)\<rparr>);
                              w4 = processor_invalidate_status_cache video w3;
                              w5 = publish_video_event ''video.completed''
                                     \<lparr>ev_video_id = video_id, ev_user_id = user_id video,
                                      ev_error = None\<rparr> w4
                          in (None, w5))))
      in case attempt of
           (None, w6) \<Rightarrow> (Inr (), w6)
         | (Some e, w6) \<Rightarrow>
             (case db_call w6 of
                (True, w7) \<Rightarrow> (Inl DatabaseError, w7)
              | (False, w7) \<Rightarrow>
                  (let w8 = log (DbCommit video_id ''error'')
                              (w7\<lparr>videos := set_status video_id ''error'' (videos w7)\<rparr>);
                       w9 = processor_invalidate_status_cache video w8;
                       w10 = publish_video_event ''video.error''
                               \<lparr>ev_video_id = video_id, ev_user_id = user_id video,
                                ev_error = Some (str_exn e)\<rparr> w9
                   in (Inr (), w10))))))"

text \<open>
  \<^verbatim>\<open>process_video_task\<close>: the task returns its result, or asks the queue for a
  retry of the exception after \<^verbatim>\<open>countdown\<close> seconds. How often the queue grants a
  retry is Celery's bookkeeping and not part of the sources.
\<close>

datatype task_result = Success string int | Retry exn nat

definition process_video_task :: "ffmpeg \<Rightarrow> int \<Rightarrow> world \<Rightarrow> task_result \<times> world" where
  "process_video_task ffmpeg_run video_id w =
     (case process_video ffmpeg_run video_id w of
        (Inr u, w1) \<Rightarrow> (Success ''completed'' video_id, w1)
      | (Inl e, w1) \<Rightarrow> (Retry e 60, w1))"

section \<open>Auxiliary definitions\<close>

text \<open>
  The file handling of \<open>upload_video\<close> on its own (from writing the upload to the
  choice of the stored file name), for the proofs: \<open>upload_video_saved\<close> shows that it
  is the block of that name in \<open>upload_video\<close>.
\<close>

definition saved_upload :: "upload_file \<Rightarrow> world \<Rightarrow> (exn + string) \<times> world" where
  "saved_upload file w0 =
     (let original_filename = up_filename file;
          tmp_path = path_div UPLOAD_DIR original_filename;
          w1 = write_file tmp_path (up_content file) w0
      in if lower (path_suffix tmp_path) = ''.zip'' then
           (case up_content file of
              Raw b \<Rightarrow> (Inl (HTTPException 400 ''Invalid zip file''), unlink tmp_path w1)
            | Zip entries \<Rightarrow>
                (case filter (\<lambda>m. lower (path_suffix m) \<in> ALLOWED_VIDEO_EXTENSIONS)
                        (namelist entries) of
                   [] \<Rightarrow>
                     (Inl (HTTPException 400
                        ''Zip must contain a video file (.mp4, .mov, .mkv, .avi, .webm)''),
                      unlink tmp_path w1)
                 | member # rest \<Rightarrow>
                     (let target_path = path_div UPLOAD_DIR (path_name member)
                      in case zip_open entries member of
                           None \<Rightarrow> (Inl KeyError, unlink tmp_path w1)
                         | Some BadOpen \<Rightarrow>
                             (Inl (HTTPException 400 ''Invalid zip file''), unlink tmp_path w1)
                         | Some (BadCopy part) \<Rightarrow>
                             (Inl (HTTPException 400 ''Invalid zip file''),
                              unlink tmp_path (write_file target_path part w1))
                         | Some (Readable d) \<Rightarrow>
                             (Inr (path_name target_path),
                              unlink tmp_path (write_file target_path d w1)))))
         else if lower (path_suffix tmp_path) \<notin> ALLOWED_VIDEO_EXTENSIONS then
           (Inl (HTTPException 400 ''Unsupported video format''), w1)
         else (Inr original_filename, w1))"

text \<open>
  The two paths \<open>process_video\<close> hands to the converter, and the effects of a trace that
  are commits of a job status, for the statements about the worker.
\<close>

definition video_input_path :: "video \<Rightarrow> path" where
  "video_input_path v = os_path_join UPLOAD_DIR (filename v)"

definition video_output_path :: "int \<Rightarrow> path" where
  "video_output_path video_id = os_path_join PROCESSED_DIR (str_int video_id @ ''_converted.mp4'')"

fun commits :: "effect list \<Rightarrow> (int \<times> string) list" where
  "commits [] = []"
| "commits (DbCommit i s # es) = (i, s) # commits es"
| "commits (e # es) = commits es"

section \<open>Example inputs\<close>

text \<open>
  A small store with two principals and three jobs, and a converter that fails when its
  input is missing or its output already exists, and copies the input otherwise.
\<close>

definition demo_users :: "user list" where
  "demo_users = [\<lparr>u_id = 1, username = ''ann''\<rparr>, \<lparr>u_id = 2, username = ''bob''\<rparr>]"

definition demo_videos :: "video list" where
  "demo_videos =
     [\<lparr>v_id = 1, filename = ''a.mp4'', user_id = 1, status = ''queued''\<rparr>,
      \<lparr>v_id = 2, filename = ''b.mov'', user_id = 2, status = ''completed''\<rparr>,
      \<lparr>v_id = 3, filename = ''c.mkv'', user_id = 1, status = ''completed''\<rparr>]"

definition demo_world :: world where
  "demo_world =
     \<lparr>users = demo_users, videos = demo_videos, cache = Map.empty,
      files = [''uploads/a.mp4'' \<mapsto> Raw ''aaa'', ''uploads/c.mkv'' \<mapsto> Raw ''ccc'',
               ''processed/3_converted.mp4'' \<mapsto> Raw ''CCC''],
      queue = [], events = [], trace = [],
      db_faults = [], cache_faults = [], bus_faults = [], broker_faults = []\<rparr>"

definition demo_ffmpeg :: ffmpeg where
  "demo_ffmpeg fs input_path output_path =
     (case fs input_path of
        None \<Rightarrow> (Some ''No such file or directory'', fs)
      | Some d \<Rightarrow>
          (case fs output_path of
             Some old \<Rightarrow> (Some ''File already exists'', fs)
           | None \<Rightarrow> (None, fs(output_path \<mapsto> d))))"

text \<open>A submission of a plain video file.\<close>

definition demo_upload :: upload_file where
  "demo_upload = \<lparr>up_filename = ''d.mp4'', up_content = Raw ''ddd''\<rparr>"










text \<open>A converter that rejects every input.\<close>

definition failing_ffmpeg :: ffmpeg where
  "failing_ffmpeg fs input_path output_path =
     (Some ''Invalid data found when processing input'', fs)"

text \<open>A world whose cache holds an outdated entry for the first principal.\<close>

definition demo_cache_stale :: world where
  "demo_cache_stale = demo_world\<lparr>cache := [status_cache_key ''ann'' \<mapsto> (120, [])]\<rparr>"

text \<open>
  A world whose cache is unreachable and holds an outdated entry for the first principal.
\<close>

definition demo_cache_down :: world where
  "demo_cache_down =
     demo_world\<lparr>cache := [status_cache_key ''ann'' \<mapsto> (120, [])],
                cache_faults := [True, True]\<rparr>"

section \<open>Unknown job ids\<close>

text \<open>
  Claim C10. For a job id that does not resolve to a record in the store (the lookup
  itself succeeding), \<open>process_video\<close> returns normally and leaves the world as it was,
  apart from the database call it made: no row, cache entry, file, event, queue entry or
  recorded effect changes. The task then reports success and asks for no retry.
\<close>

theorem process_video_unknown_id:
  assumes "\<not> next_fault (db_faults w)" and "video_by_id video_id w = None"
  shows "process_video ffmpeg_run video_id w = (Inr (), w\<lparr>db_faults := tl (db_faults w)\<rparr>)
       \<and> process_video_task ffmpeg_run video_id w
           = (Success ''completed'' video_id, w\<lparr>db_faults := tl (db_faults w)\<rparr>)"
proof -
  have q: "video_by_id video_id (w\<lparr>db_faults := tl (db_faults w)\<rparr>) = None"
    using assms(2) by (simp add: video_by_id_def)
  have p: "process_video ffmpeg_run video_id w = (Inr (), w\<lparr>db_faults := tl (db_faults w)\<rparr>)"
    using assms(1) q by (simp add: process_video_def db_call_def)
  then show ?thesis by (simp add: process_video_task_def)
qed

theorem process_video_unknown_id_witness:
  "\<not> next_fault (db_faults demo_world) \<and> video_by_id 7 demo_world = None
   \<and> process_video demo_ffmpeg 7 demo_world
       = (Inr (), demo_world\<lparr>db_faults := tl (db_faults demo_world)\<rparr>)
   \<and> process_video_task demo_ffmpeg 7 demo_world
       = (Success ''completed'' 7, demo_world\<lparr>db_faults := tl (db_faults demo_world)\<rparr>)"
proof -
  have a: "\<not> next_fault (db_faults demo_world)"
    by (simp add: demo_world_def next_fault_def)
  have b: "video_by_id 7 demo_world = None"
    by (simp add: demo_world_def demo_videos_def video_by_id_def)
  show ?thesis using a b process_video_unknown_id [OF a b, of demo_ffmpeg] by simp
qed

section \<open>Download\<close>

text \<open>
  Claim C8. When the requested job is absent from the store, or belongs to a principal
  other than the caller, or is not in state \<^verbatim>\<open>completed\<close>, \<open>download_video\<close> raises the
  same exception, status 404 with the detail \<^verbatim>\<open>Video not found or not ready\<close>, and
  leaves the same world: the three causes cannot be told apart.
\<close>

theorem download_not_found_uniform:
  assumes "\<not> next_fault (db_faults w)"
    and "video_by_id video_id w = None
         \<or> (\<exists>v u. video_by_id video_id w = Some v \<and> video_user v w = Some u
                \<and> (username u \<noteq> current_user \<or> status v \<noteq> ''completed''))"
  shows "download_video video_id current_user w
         = (Inl (HTTPException 404 ''Video not found or not ready''),
            w\<lparr>db_faults := tl (db_faults w)\<rparr>)"
proof -
  let ?w0 = "w\<lparr>db_faults := tl (db_faults w)\<rparr>"
  have q: "video_by_id video_id ?w0 = video_by_id video_id w"
    by (simp add: video_by_id_def)
  have u: "\<And>v. video_user v ?w0 = video_user v w"
    by (simp add: video_user_def)
  from assms(2) show ?thesis
  proof
    assume "video_by_id video_id w = None"
    then show ?thesis using assms(1) q
      by (simp add: download_video_def db_call_def)
  next
    assume "\<exists>v u. video_by_id video_id w = Some v \<and> video_user v w = Some u
                \<and> (username u \<noteq> current_user \<or> status v \<noteq> ''completed'')"
    then obtain v u where "video_by_id video_id w = Some v" "video_user v w = Some u"
      "username u \<noteq> current_user \<or> status v \<noteq> ''completed''" by blast
    then show ?thesis using assms(1) q u
      by (auto simp add: download_video_def db_call_def)
  qed
qed

theorem download_not_found_uniform_witness:
  "download_video 7 ''ann'' demo_world
     = (Inl (HTTPException 404 ''Video not found or not ready''),
        demo_world\<lparr>db_faults := tl (db_faults demo_world)\<rparr>)
   \<and> download_video 2 ''ann'' demo_world
     = (Inl (HTTPException 404 ''Video not found or not ready''),
        demo_world\<lparr>db_faults := tl (db_faults demo_world)\<rparr>)
   \<and> download_video 1 ''ann'' demo_world
     = (Inl (HTTPException 404 ''Video not found or not ready''),
        demo_world\<lparr>db_faults := tl (db_faults demo_world)\<rparr>)"
proof -
  have a: "\<not> next_fault (db_faults demo_world)"
    by (simp add: demo_world_def next_fault_def)
  have absent: "video_by_id 7 demo_world = None"
    by (simp add: demo_world_def demo_videos_def video_by_id_def)
  have other: "\<exists>v u. video_by_id 2 demo_world = Some v \<and> video_user v demo_world = Some u
                \<and> (username u \<noteq> ''ann'' \<or> status v \<noteq> ''completed'')"
    by (simp add: demo_world_def demo_videos_def demo_users_def video_by_id_def video_user_def)
  have unready: "\<exists>v u. video_by_id 1 demo_world = Some v \<and> video_user v demo_world = Some u
                \<and> (username u \<noteq> ''ann'' \<or> status v \<noteq> ''completed'')"
    by (simp add: demo_world_def demo_videos_def demo_users_def video_by_id_def video_user_def)
  show ?thesis
    using download_not_found_uniform [OF a disjI1 [OF absent], of "''ann''"]
          download_not_found_uniform [OF a disjI2 [OF other]]
          download_not_found_uniform [OF a disjI2 [OF unready]]
    by simp
qed

section \<open>Facts about paths\<close>













section \<open>Facts about the store and the collaborators\<close>

lemma fold_max_ge: "a \<le> fold max xs (a::int)"
proof (induction xs arbitrary: a)
  case Nil
  then show ?case by simp
next
  case (Cons x xs)
  have "a \<le> max x a" by simp
  also have "\<dots> \<le> fold max xs (max x a)" by (rule Cons.IH)
  finally show ?case by simp
qed

lemma fold_max_mem: "x \<in> set xs \<Longrightarrow> x \<le> fold max xs (a::int)"
proof (induction xs arbitrary: a)
  case Nil
  then show ?case by simp
next
  case (Cons y ys)
  show ?case
  proof (cases "x = y")
    case True
    have "x \<le> max y a" using True by simp
    also have "\<dots> \<le> fold max ys (max y a)" by (rule fold_max_ge)
    finally show ?thesis by simp
  next
    case False
    with Cons.prems have "x \<in> set ys" by simp
    then show ?thesis using Cons.IH by simp
  qed
qed

lemma fresh_id_greater: "v \<in> set vs \<Longrightarrow> v_id v < fresh_id vs"
proof -
  assume "v \<in> set vs"
  then have "v_id v \<in> set (map v_id vs)" by simp
  then have "v_id v \<le> fold max (map v_id vs) 0" by (rule fold_max_mem)
  then show ?thesis by (simp add: fresh_id_def)
qed

lemma find_fresh_None: "find (\<lambda>v. v_id v = fresh_id vs) vs = None"
proof -
  have "\<not> (\<exists>v. v \<in> set vs \<and> v_id v = fresh_id vs)"
    using fresh_id_greater by fastforce
  then show ?thesis by (simp add: find_None_iff)
qed

lemma find_append_new:
  "find P xs = None \<Longrightarrow> P y \<Longrightarrow> find P (xs @ [y]) = Some y"
  by (induction xs) (auto split: if_splits)

lemma find_set_status:
  "find (\<lambda>v. v_id v = i) (set_status i s vs)
   = map_option (\<lambda>v. v\<lparr>status := s\<rparr>) (find (\<lambda>v. v_id v = i) vs)"
  by (induction vs) (auto simp: set_status_def)

lemma find_set_status_other:
  "j \<noteq> i \<Longrightarrow> find (\<lambda>v. v_id v = j) (set_status i s vs) = find (\<lambda>v. v_id v = j) vs"
  by (induction vs) (auto simp: set_status_def)

text \<open>What the calls to the cache and to the event bus leave alone.\<close>

lemma log_fields [simp]:
  "users (log e w) = users w" "videos (log e w) = videos w" "cache (log e w) = cache w"
  "files (log e w) = files w" "queue (log e w) = queue w" "events (log e w) = events w"
  "trace (log e w) = trace w @ [e]" "db_faults (log e w) = db_faults w"
  "cache_faults (log e w) = cache_faults w" "bus_faults (log e w) = bus_faults w"
  "broker_faults (log e w) = broker_faults w"
  by (simp_all add: log_def)

lemma invalidate_status_cache_fields [simp]:
  "users (invalidate_status_cache n w) = users w"
  "videos (invalidate_status_cache n w) = videos w"
  "files (invalidate_status_cache n w) = files w"
  "queue (invalidate_status_cache n w) = queue w"
  "events (invalidate_status_cache n w) = events w"
  "db_faults (invalidate_status_cache n w) = db_faults w"
  "bus_faults (invalidate_status_cache n w) = bus_faults w"
  "broker_faults (invalidate_status_cache n w) = broker_faults w"
  by (simp_all add: invalidate_status_cache_def cache_call_def split: bool.splits)

lemma invalidate_status_cache_trace:
  "trace (invalidate_status_cache n w)
   = trace w @ [CacheDelete (status_cache_key n) (\<not> next_fault (cache_faults w))]"
  by (simp add: invalidate_status_cache_def cache_call_def split: bool.splits)

lemma invalidate_status_cache_cache:
  "cache (invalidate_status_cache n w)
   = (if next_fault (cache_faults w) then cache w else (cache w)(status_cache_key n := None))"
  by (simp add: invalidate_status_cache_def cache_call_def split: bool.splits)

lemma set_cached_status_fields [simp]:
  "users (set_cached_status n d w) = users w"
  "videos (set_cached_status n d w) = videos w"
  "files (set_cached_status n d w) = files w"
  "queue (set_cached_status n d w) = queue w"
  "events (set_cached_status n d w) = events w"
  "db_faults (set_cached_status n d w) = db_faults w"
  "bus_faults (set_cached_status n d w) = bus_faults w"
  "broker_faults (set_cached_status n d w) = broker_faults w"
  by (simp_all add: set_cached_status_def cache_call_def split: bool.splits)

lemma processor_invalidate_fields [simp]:
  "users (processor_invalidate_status_cache v w) = users w"
  "videos (processor_invalidate_status_cache v w) = videos w"
  "files (processor_invalidate_status_cache v w) = files w"
  "queue (processor_invalidate_status_cache v w) = queue w"
  "events (processor_invalidate_status_cache v w) = events w"
  "db_faults (processor_invalidate_status_cache v w) = db_faults w"
  "bus_faults (processor_invalidate_status_cache v w) = bus_faults w"
  "broker_faults (processor_invalidate_status_cache v w) = broker_faults w"
  by (simp_all add: processor_invalidate_status_cache_def cache_call_def split: option.splits bool.splits)

lemma publish_video_event_fields [simp]:
  "users (publish_video_event t d w) = users w"
  "videos (publish_video_event t d w) = videos w"
  "cache (publish_video_event t d w) = cache w"
  "files (publish_video_event t d w) = files w"
  "queue (publish_video_event t d w) = queue w"
  "db_faults (publish_video_event t d w) = db_faults w"
  "cache_faults (publish_video_event t d w) = cache_faults w"
  "broker_faults (publish_video_event t d w) = broker_faults w"
  by (simp_all add: publish_video_event_def bus_call_def split: bool.splits)

lemma publish_video_event_events:
  "events (publish_video_event t d w)
   = (if next_fault (bus_faults w) then events w else events w @ [(t, d)])"
  by (simp add: publish_video_event_def bus_call_def split: bool.splits)

lemma publish_video_event_trace:
  "trace (publish_video_event t d w) = trace w @ [Publish t d (\<not> next_fault (bus_faults w))]"
  by (simp add: publish_video_event_def bus_call_def split: bool.splits)

lemma write_file_fields [simp]:
  "users (write_file p d w) = users w" "videos (write_file p d w) = videos w"
  "cache (write_file p d w) = cache w" "queue (write_file p d w) = queue w"
  "events (write_file p d w) = events w" "trace (write_file p d w) = trace w"
  "db_faults (write_file p d w) = db_faults w"
  "cache_faults (write_file p d w) = cache_faults w"
  "bus_faults (write_file p d w) = bus_faults w"
  "broker_faults (write_file p d w) = broker_faults w"
  "files (write_file p d w) = (files w)(p \<mapsto> d)"
  by (simp_all add: write_file_def)

lemma unlink_fields [simp]:
  "users (unlink p w) = users w" "videos (unlink p w) = videos w"
  "cache (unlink p w) = cache w" "queue (unlink p w) = queue w"
  "events (unlink p w) = events w" "trace (unlink p w) = trace w"
  "db_faults (unlink p w) = db_faults w"
  "cache_faults (unlink p w) = cache_faults w"
  "bus_faults (unlink p w) = bus_faults w"
  "broker_faults (unlink p w) = broker_faults w"
  "files (unlink p w) = (files w)(p := None)"
  by (simp_all add: unlink_def)

section \<open>Facts about the submission\<close>

lemma upload_video_saved:
  "upload_video file current_user w =
     (case db_call w of
        (True, w0) \<Rightarrow> (Inl DatabaseError, w0)
      | (False, w0) \<Rightarrow>
     (case user_by_name current_user w0 of
        None \<Rightarrow> (Inl (HTTPException 404 ''User not found''), w0)
      | Some user \<Rightarrow>
     (case saved_upload file w0 of
        (Inl e, w3) \<Rightarrow> (Inl e, w3)
      | (Inr final_filename, w3) \<Rightarrow>
     (case db_call w3 of
        (True, w4) \<Rightarrow> (Inl DatabaseError, w4)
      | (False, w4) \<Rightarrow>
     (let vid = fresh_id (videos w4);
          video = \<lparr>v_id = vid, filename = final_filename, user_id = u_id user,
                    status = DEFAULT_STATUS\<rparr>;
          w5 = log (DbCommit vid DEFAULT_STATUS) (w4\<lparr>videos := videos w4 @ [video]\<rparr>)
      in case db_call w5 of
           (True, w6) \<Rightarrow> (Inl DatabaseError, w6)
         | (False, w6) \<Rightarrow>
     (let w7 = invalidate_status_cache current_user w6
      in case broker_call w7 of
           (True, w8) \<Rightarrow> (Inl BrokerError, w8)
         | (False, w8) \<Rightarrow>
             (Inr (vid, ''queued''), log (Enqueue vid) (w8\<lparr>queue := queue w8 @ [vid]\<rparr>))))))))"
  unfolding upload_video_def saved_upload_def Let_def by (rule refl)

lemma saved_upload_fields [simp]:
  "users (snd (saved_upload file w)) = users w"
  "videos (snd (saved_upload file w)) = videos w"
  "cache (snd (saved_upload file w)) = cache w"
  "queue (snd (saved_upload file w)) = queue w"
  "events (snd (saved_upload file w)) = events w"
  "trace (snd (saved_upload file w)) = trace w"
  "db_faults (snd (saved_upload file w)) = db_faults w"
  "cache_faults (snd (saved_upload file w)) = cache_faults w"
  "bus_faults (snd (saved_upload file w)) = bus_faults w"
  "broker_faults (snd (saved_upload file w)) = broker_faults w"
  by (simp_all add: saved_upload_def Let_def
      split: fdata.splits list.splits option.splits entry.splits)

lemma upload_video_success:
  assumes "upload_video file current_user w = (Inr r, w')"
  shows "\<exists>user final_filename.
           user_by_name current_user w = Some user
         \<and> fst (saved_upload file (w\<lparr>db_faults := tl (db_faults w)\<rparr>)) = Inr final_filename
         \<and> r = (fresh_id (videos w), ''queued'')
         \<and> videos w' = videos w @ [\<lparr>v_id = fresh_id (videos w), filename = final_filename,
                                     user_id = u_id user, status = DEFAULT_STATUS\<rparr>]
         \<and> trace w' = trace w @ [DbCommit (fresh_id (videos w)) DEFAULT_STATUS,
                                  CacheDelete (status_cache_key current_user)
                                    (\<not> next_fault (cache_faults w)),
                                  Enqueue (fresh_id (videos w))]
         \<and> queue w' = queue w @ [fresh_id (videos w)]
         \<and> cache w' = (if next_fault (cache_faults w) then cache w
                        else (cache w)(status_cache_key current_user := None))
         \<and> files w' = files (snd (saved_upload file (w\<lparr>db_faults := tl (db_faults w)\<rparr>)))
         \<and> users w' = users w \<and> events w' = events w"
  using assms
  unfolding upload_video_saved db_call_def broker_call_def Let_def
  by (auto simp: split_beta user_by_name_def invalidate_status_cache_trace
        invalidate_status_cache_cache
      split: option.splits sum.splits bool.splits if_splits)

section \<open>Order of the effects of a submission\<close>

text \<open>
  Claim C5. Every submission that succeeds returns the id of the new job with the status
  \<^verbatim>\<open>queued\<close>. The id was not in the store before and resolves in it afterwards, to a
  row in state \<^verbatim>\<open>queued\<close>. The effects of the request are, in this order, the commit
  of the row, the call that deletes the submitting principal's cache key and the
  enqueueing of the job id: the id is on the queue only after the row is in the store.
  The delete succeeds exactly when the cache answers, and then the cache is the old one
  without the principal's key; when the cache raises, the cache is left as it was.
\<close>

theorem upload_commit_before_enqueue:
  assumes "upload_video file current_user w = (Inr (job_id, st), w')"
  shows "st = ''queued''
       \<and> video_by_id job_id w = None
       \<and> (\<exists>v. video_by_id job_id w' = Some v \<and> status v = ''queued'')
       \<and> trace w' = trace w @ [DbCommit job_id ''queued'',
                                CacheDelete (status_cache_key current_user)
                                  (\<not> next_fault (cache_faults w)),
                                Enqueue job_id]
       \<and> cache w' = (if next_fault (cache_faults w) then cache w
                      else (cache w)(status_cache_key current_user := None))
       \<and> queue w' = queue w @ [job_id]"
proof -
  from upload_video_success [OF assms] obtain user final_filename where
    all: "user_by_name current_user w = Some user
         \<and> fst (saved_upload file (w\<lparr>db_faults := tl (db_faults w)\<rparr>)) = Inr final_filename
         \<and> (job_id, st) = (fresh_id (videos w), ''queued'')
         \<and> videos w' = videos w @ [\<lparr>v_id = fresh_id (videos w), filename = final_filename,
                                     user_id = u_id user, status = DEFAULT_STATUS\<rparr>]
         \<and> trace w' = trace w @ [DbCommit (fresh_id (videos w)) DEFAULT_STATUS,
                                  CacheDelete (status_cache_key current_user)
                                    (\<not> next_fault (cache_faults w)),
                                  Enqueue (fresh_id (videos w))]
         \<and> queue w' = queue w @ [fresh_id (videos w)]
         \<and> cache w' = (if next_fault (cache_faults w) then cache w
                        else (cache w)(status_cache_key current_user := None))
         \<and> files w' = files (snd (saved_upload file (w\<lparr>db_faults := tl (db_faults w)\<rparr>)))
         \<and> users w' = users w \<and> events w' = events w"
    by (elim exE) (rule that)
  from all have r: "(job_id, st) = (fresh_id (videos w), ''queued'')" by simp
  from all have vs: "videos w' = videos w @ [\<lparr>v_id = fresh_id (videos w), filename = final_filename,
                                     user_id = u_id user, status = DEFAULT_STATUS\<rparr>]" by simp
  from all have tr: "trace w' = trace w @ [DbCommit (fresh_id (videos w)) DEFAULT_STATUS,
                                  CacheDelete (status_cache_key current_user)
                                    (\<not> next_fault (cache_faults w)),
                                  Enqueue (fresh_id (videos w))]" by simp
  from all have qu: "queue w' = queue w @ [fresh_id (videos w)]" by simp
  from all have ca: "cache w' = (if next_fault (cache_faults w) then cache w
                        else (cache w)(status_cache_key current_user := None))" by simp
  from r have id: "job_id = fresh_id (videos w)" and st: "st = ''queued''" by simp_all
  have fresh: "video_by_id job_id w = None"
    unfolding video_by_id_def id by (rule find_fresh_None)
  have "find (\<lambda>v. v_id v = job_id) (videos w') =
          Some \<lparr>v_id = fresh_id (videos w), filename = final_filename,
                user_id = u_id user, status = DEFAULT_STATUS\<rparr>"
    unfolding vs using fresh
    by (intro find_append_new) (simp_all add: video_by_id_def id)
  then have stored: "\<exists>v. video_by_id job_id w' = Some v \<and> status v = ''queued''"
    by (simp add: video_by_id_def DEFAULT_STATUS_def)
  have order: "trace w' = trace w @ [DbCommit job_id ''queued'',
                                CacheDelete (status_cache_key current_user)
                                  (\<not> next_fault (cache_faults w)),
                                Enqueue job_id]"
    using tr by (simp add: id DEFAULT_STATUS_def)
  show ?thesis using st fresh stored order ca qu id by simp
qed


lemma demo_saved: "fst (saved_upload demo_upload w) = Inr ''d.mp4''"
  by (simp add: saved_upload_def demo_upload_def Let_def path_div_def os_path_join_def
      UPLOAD_DIR_def Path_def path_root_def path_parts_def path_suffix_def path_name_def
      rfind_def lower_char_def ALLOWED_VIDEO_EXTENSIONS_def)

lemma demo_upload_result:
  "fst (upload_video demo_upload ''ann'' demo_world) = Inr (4, ''queued'')"
  unfolding upload_video_saved db_call_def broker_call_def Let_def
  by (simp add: split_beta demo_saved user_by_name_def demo_world_def demo_users_def
      demo_videos_def next_fault_def fresh_id_def split: sum.splits)

lemma demo_upload_stale_result:
  "fst (upload_video demo_upload ''ann'' demo_cache_stale) = Inr (4, ''queued'')"
  unfolding upload_video_saved db_call_def broker_call_def Let_def
  by (simp add: split_beta demo_saved user_by_name_def demo_cache_stale_def demo_world_def
      demo_users_def demo_videos_def next_fault_def fresh_id_def split: sum.splits)

theorem upload_commit_before_enqueue_witness:
  "upload_video demo_upload ''ann'' demo_cache_stale
     = (Inr (4, ''queued''), snd (upload_video demo_upload ''ann'' demo_cache_stale))
   \<and> cache demo_cache_stale (status_cache_key ''ann'') = Some (120, [])
   \<and> video_by_id 4 demo_cache_stale = None
   \<and> trace (snd (upload_video demo_upload ''ann'' demo_cache_stale))
       = [DbCommit 4 ''queued'', CacheDelete (status_cache_key ''ann'') True, Enqueue 4]
   \<and> cache (snd (upload_video demo_upload ''ann'' demo_cache_stale)) (status_cache_key ''ann'')
       = None
   \<and> queue (snd (upload_video demo_upload ''ann'' demo_cache_stale)) = [4]"
proof -
  let ?w' = "snd (upload_video demo_upload ''ann'' demo_cache_stale)"
  have e: "upload_video demo_upload ''ann'' demo_cache_stale = (Inr (4, ''queued''), ?w')"
    using demo_upload_stale_result by (simp add: prod_eq_iff)
  have c: "cache demo_cache_stale (status_cache_key ''ann'') = Some (120, [])"
    by (simp add: demo_cache_stale_def)
  have nf: "\<not> next_fault (cache_faults demo_cache_stale)"
    by (simp add: demo_cache_stale_def demo_world_def next_fault_def)
  have tr0: "trace demo_cache_stale = []" "queue demo_cache_stale = []"
    by (simp_all add: demo_cache_stale_def demo_world_def)
  note t = upload_commit_before_enqueue [OF e]
  have t2: "video_by_id 4 demo_cache_stale = None"
    by (rule t [THEN conjunct2, THEN conjunct1])
  have "trace ?w' = trace demo_cache_stale @ [DbCommit 4 ''queued'',
                      CacheDelete (status_cache_key ''ann'')
                        (\<not> next_fault (cache_faults demo_cache_stale)), Enqueue 4]"
    by (rule t [THEN conjunct2, THEN conjunct2, THEN conjunct2, THEN conjunct1])
  then have t4: "trace ?w' = [DbCommit 4 ''queued'', CacheDelete (status_cache_key ''ann'') True,
                              Enqueue 4]"
    using nf tr0 by simp
  have "cache ?w' = (if next_fault (cache_faults demo_cache_stale) then cache demo_cache_stale
                      else (cache demo_cache_stale)(status_cache_key ''ann'' := None))"
    by (rule t [THEN conjunct2, THEN conjunct2, THEN conjunct2, THEN conjunct2, THEN conjunct1])
  then have t5: "cache ?w' (status_cache_key ''ann'') = None"
    using nf by simp
  have "queue ?w' = queue demo_cache_stale @ [4]"
    by (rule t [THEN conjunct2, THEN conjunct2, THEN conjunct2, THEN conjunct2, THEN conjunct2])
  then have t6: "queue ?w' = [4]" using tr0 by simp
  from e c t2 t4 t5 t6 show ?thesis by (intro conjI)
qed

section \<open>Validation of a submission\<close>

















section \<open>Submission of an archive\<close>











section \<open>Facts about the worker\<close>

lemma commits_append [simp]: "commits (xs @ ys) = commits xs @ commits ys"
  by (induction xs rule: commits.induct) simp_all

lemma processor_invalidate_commits [simp]:
  "commits (trace (processor_invalidate_status_cache v w)) = commits (trace w)"
  by (simp add: processor_invalidate_status_cache_def cache_call_def
      split: option.splits bool.splits)

lemma publish_commits [simp]:
  "commits (trace (publish_video_event t d w)) = commits (trace w)"
  by (simp add: publish_video_event_trace)

lemma processor_invalidate_trace:
  "\<exists>es. trace (processor_invalidate_status_cache v w) = trace w @ es"
  by (simp add: processor_invalidate_status_cache_def cache_call_def
      split: option.splits bool.splits)

lemma processor_invalidate_cache:
  "cache (processor_invalidate_status_cache v w) =
     (case video_user v w of
        None \<Rightarrow> cache w
      | Some u \<Rightarrow>
          if username u = [] \<or> next_fault (cache_faults w) then cache w
          else (cache w)(''videos:status:'' @ username u := None))"
  by (simp add: processor_invalidate_status_cache_def cache_call_def
      split: option.splits bool.splits)

text \<open>What each part of the outcome of a run depends on.\<close>

lemma process_video_depends:
  assumes "db_faults w1 = db_faults w2" "videos w1 = videos w2" "files w1 = files w2"
  shows "fst (process_video ffmpeg_run video_id w1) = fst (process_video ffmpeg_run video_id w2)"
    and "videos (snd (process_video ffmpeg_run video_id w1))
         = videos (snd (process_video ffmpeg_run video_id w2))"
    and "files (snd (process_video ffmpeg_run video_id w1))
         = files (snd (process_video ffmpeg_run video_id w2))"
  using assms
  unfolding process_video_def db_call_def Let_def video_by_id_def
  by (auto simp: split_beta split: option.splits bool.splits)

lemma process_video_depends_events:
  assumes "db_faults w1 = db_faults w2" "videos w1 = videos w2" "files w1 = files w2"
    and "events w1 = events w2" "bus_faults w1 = bus_faults w2"
  shows "events (snd (process_video ffmpeg_run video_id w1))
         = events (snd (process_video ffmpeg_run video_id w2))"
  using assms
  unfolding process_video_def db_call_def Let_def video_by_id_def
  by (auto simp: split_beta publish_video_event_events split: option.splits bool.splits)

lemma process_video_depends_cache:
  assumes "db_faults w1 = db_faults w2" "videos w1 = videos w2" "files w1 = files w2"
    and "cache w1 = cache w2" "cache_faults w1 = cache_faults w2" "users w1 = users w2"
  shows "cache (snd (process_video ffmpeg_run video_id w1))
         = cache (snd (process_video ffmpeg_run video_id w2))"
  using assms
  unfolding process_video_def db_call_def Let_def video_by_id_def
  by (auto simp: split_beta processor_invalidate_cache video_user_def
      split: option.splits bool.splits)

lemma process_video_raises:
  assumes "fst (process_video ffmpeg_run video_id w) = Inl e"
  shows "e = DatabaseError
       \<and> (next_fault (db_faults w) \<or> next_fault (tl (db_faults w))
          \<or> next_fault (tl (tl (db_faults w))))"
  using assms
  unfolding process_video_def db_call_def Let_def
  by (auto simp: split_beta split: option.splits bool.splits if_splits)

lemma process_video_commits:
  "commits (trace (snd (process_video ffmpeg_run video_id w))) = commits (trace w)
   \<or> commits (trace (snd (process_video ffmpeg_run video_id w)))
       = commits (trace w) @ [(video_id, ''completed'')]
   \<or> commits (trace (snd (process_video ffmpeg_run video_id w)))
       = commits (trace w) @ [(video_id, ''error'')]"
  unfolding process_video_def db_call_def Let_def
  by (auto simp: split_beta split: option.splits bool.splits)

lemma process_video_videos:
  "videos (snd (process_video ffmpeg_run video_id w)) = videos w
   \<or> videos (snd (process_video ffmpeg_run video_id w)) = set_status video_id ''completed'' (videos w)
   \<or> videos (snd (process_video ffmpeg_run video_id w)) = set_status video_id ''error'' (videos w)"
  unfolding process_video_def db_call_def Let_def
  by (auto simp: split_beta split: option.splits bool.splits)

lemma video_by_id_set_status:
  "video_by_id i (w\<lparr>videos := set_status i s (videos w)\<rparr>)
   = map_option (\<lambda>v. v\<lparr>status := s\<rparr>) (video_by_id i w)"
  by (simp add: video_by_id_def find_set_status)

text \<open>A run on a job that the lookup finds, when the commit that follows succeeds.\<close>

lemma process_video_found:
  assumes "\<not> next_fault (db_faults w)" and "\<not> next_fault (tl (db_faults w))"
    and "video_by_id video_id w = Some v"
    and "ffmpeg_run (files w) (video_input_path v) (video_output_path video_id) = (r, fs)"
  shows "fst (process_video ffmpeg_run video_id w) = Inr ()"
    and "videos (snd (process_video ffmpeg_run video_id w))
         = set_status video_id (if r = None then ''completed'' else ''error'') (videos w)"
    and "files (snd (process_video ffmpeg_run video_id w)) = fs"
    and "events (snd (process_video ffmpeg_run video_id w))
         = (if next_fault (bus_faults w) then events w
            else events w @
              [(if r = None then ''video.completed'' else ''video.error'',
                \<lparr>ev_video_id = video_id, ev_user_id = user_id v, ev_error = r\<rparr>)])"
    and "commits (trace (snd (process_video ffmpeg_run video_id w)))
         = commits (trace w) @ [(video_id, if r = None then ''completed'' else ''error'')]"
    and "\<exists>rest. trace (snd (process_video ffmpeg_run video_id w))
            = trace w @ Convert (video_input_path v) (video_output_path video_id) (r = None) # rest"
    and "db_faults (snd (process_video ffmpeg_run video_id w)) = tl (tl (db_faults w))"
    and "cache (snd (process_video ffmpeg_run video_id w))
         = (case video_user v w of
              None \<Rightarrow> cache w
            | Some u \<Rightarrow>
                if username u = [] \<or> next_fault (cache_faults w) then cache w
                else (cache w)(''videos:status:'' @ username u := None))"
proof -
  have q: "video_by_id video_id (w\<lparr>db_faults := tl (db_faults w)\<rparr>) = Some v"
    using assms(3) by (simp add: video_by_id_def)
  note run = assms(4) [unfolded video_input_path_def video_output_path_def]
  show "fst (process_video ffmpeg_run video_id w) = Inr ()"
    unfolding process_video_def db_call_def Let_def
    using assms(1,2) q run by (cases r) (simp_all add: split_beta)
  show "videos (snd (process_video ffmpeg_run video_id w))
         = set_status video_id (if r = None then ''completed'' else ''error'') (videos w)"
    unfolding process_video_def db_call_def Let_def
    using assms(1,2) q run by (cases r) (simp_all add: split_beta)
  show "files (snd (process_video ffmpeg_run video_id w)) = fs"
    unfolding process_video_def db_call_def Let_def
    using assms(1,2) q run by (cases r) (simp_all add: split_beta)
  show "events (snd (process_video ffmpeg_run video_id w))
         = (if next_fault (bus_faults w) then events w
            else events w @
              [(if r = None then ''video.completed'' else ''video.error'',
                \<lparr>ev_video_id = video_id, ev_user_id = user_id v, ev_error = r\<rparr>)])"
    unfolding process_video_def db_call_def Let_def
    using assms(1,2) q run
    by (cases r) (simp_all add: split_beta publish_video_event_events)
  show "commits (trace (snd (process_video ffmpeg_run video_id w)))
         = commits (trace w) @ [(video_id, if r = None then ''completed'' else ''error'')]"
    unfolding process_video_def db_call_def Let_def
    using assms(1,2) q run by (cases r) (simp_all add: split_beta)
  show "cache (snd (process_video ffmpeg_run video_id w))
         = (case video_user v w of
              None \<Rightarrow> cache w
            | Some u \<Rightarrow>
                if username u = [] \<or> next_fault (cache_faults w) then cache w
                else (cache w)(''videos:status:'' @ username u := None))"
    unfolding process_video_def db_call_def Let_def
    using assms(1,2) q run
    by (cases r)
       (simp_all add: split_beta processor_invalidate_cache video_user_def split: option.splits)
  show "\<exists>rest. trace (snd (process_video ffmpeg_run video_id w))
            = trace w @ Convert (video_input_path v) (video_output_path video_id) (r = None) # rest"
    unfolding process_video_def db_call_def Let_def video_input_path_def video_output_path_def
    using assms(1,2) q run
    by (cases r)
       (simp_all add: split_beta publish_video_event_trace processor_invalidate_status_cache_def
          cache_call_def split: option.splits bool.splits)
  show "db_faults (snd (process_video ffmpeg_run video_id w)) = tl (tl (db_faults w))"
    unfolding process_video_def db_call_def Let_def
    using assms(1,2) q run by (cases r) (simp_all add: split_beta)
qed

lemma process_video_step:
  "(commits (trace (snd (process_video ffmpeg_run video_id w))) = commits (trace w)
    \<and> videos (snd (process_video ffmpeg_run video_id w)) = videos w)
   \<or> (commits (trace (snd (process_video ffmpeg_run video_id w)))
        = commits (trace w) @ [(video_id, ''completed'')]
      \<and> videos (snd (process_video ffmpeg_run video_id w))
        = set_status video_id ''completed'' (videos w))
   \<or> (commits (trace (snd (process_video ffmpeg_run video_id w)))
        = commits (trace w) @ [(video_id, ''error'')]
      \<and> videos (snd (process_video ffmpeg_run video_id w))
        = set_status video_id ''error'' (videos w))"
  unfolding process_video_def db_call_def Let_def
  by (auto simp: split_beta split: option.splits bool.splits)

lemma process_video_task_alt:
  "fst (process_video_task ffmpeg_run video_id w)
     = (case fst (process_video ffmpeg_run video_id w) of
          Inr u \<Rightarrow> Success ''completed'' video_id
        | Inl e \<Rightarrow> Retry e 60)"
  "snd (process_video_task ffmpeg_run video_id w) = snd (process_video ffmpeg_run video_id w)"
  by (simp_all add: process_video_task_def split_beta split: sum.splits)

section \<open>Conversion failure\<close>

lemma demo_job1: "video_by_id 1 demo_world
    = Some \<lparr>v_id = 1, filename = ''a.mp4'', user_id = 1, status = ''queued''\<rparr>"
  by (simp add: video_by_id_def demo_world_def demo_videos_def)

lemma demo_no_db_faults:
  "\<not> next_fault (db_faults demo_world)" "\<not> next_fault (tl (db_faults demo_world))"
  by (simp_all add: demo_world_def next_fault_def)

lemma demo_job1_paths:
  "video_input_path \<lparr>v_id = 1, filename = ''a.mp4'', user_id = 1, status = s\<rparr> = ''uploads/a.mp4''"
  "video_output_path 1 = ''processed/1_converted.mp4''"
  by (simp_all add: video_input_path_def video_output_path_def os_path_join_def UPLOAD_DIR_def
      PROCESSED_DIR_def str_int_def str_nat.simps digit_char_def)

lemma demo_job1_failing:
  "failing_ffmpeg (files demo_world)
     (video_input_path \<lparr>v_id = 1, filename = ''a.mp4'', user_id = 1, status = ''queued''\<rparr>)
     (video_output_path 1)
   = (Some ''Invalid data found when processing input'', files demo_world)"
  by (simp add: failing_ffmpeg_def)

text \<open>
  Claim C1, as the code has it. When the conversion of a job fails (the lookup and the
  commit succeeding), that first attempt already puts the job into the state
  \<^verbatim>\<open>error\<close> and, unless the event bus fails, publishes \<^verbatim>\<open>video.error\<close> with the
  text of the error; the task returns its success value and asks for no retry. The task
  asks for a retry, always with a countdown of 60 seconds, only when \<open>process_video\<close>
  raises, and what it raises is a database error of one of its three database calls.
\<close>

theorem conversion_failure_is_terminal_at_once:
  assumes "\<not> next_fault (db_faults w)" and "\<not> next_fault (tl (db_faults w))"
    and "video_by_id video_id w = Some v"
    and "ffmpeg_run (files w) (video_input_path v) (video_output_path video_id) = (Some msg, fs)"
  shows "fst (process_video_task ffmpeg_run video_id w) = Success ''completed'' video_id
       \<and> video_by_id video_id (snd (process_video_task ffmpeg_run video_id w))
           = Some (v\<lparr>status := ''error''\<rparr>)
       \<and> events (snd (process_video_task ffmpeg_run video_id w))
           = (if next_fault (bus_faults w) then events w
              else events w @ [(''video.error'',
                     \<lparr>ev_video_id = video_id, ev_user_id = user_id v, ev_error = Some msg\<rparr>)])
       \<and> (\<forall>e n. fst (process_video_task ffmpeg_run2 video_id2 w2) = Retry e n \<longrightarrow>
              n = 60 \<and> e = DatabaseError
            \<and> (next_fault (db_faults w2) \<or> next_fault (tl (db_faults w2))
               \<or> next_fault (tl (tl (db_faults w2)))))"
proof -
  let ?w' = "snd (process_video ffmpeg_run video_id w)"
  note found = process_video_found [where ffmpeg_run = ffmpeg_run, OF assms]
  have r: "fst (process_video_task ffmpeg_run video_id w) = Success ''completed'' video_id"
    using found(1) by (simp add: process_video_task_alt)
  have "videos ?w' = set_status video_id ''error'' (videos w)"
    using found(2) by simp
  then have "video_by_id video_id ?w' = map_option (\<lambda>v. v\<lparr>status := ''error''\<rparr>) (video_by_id video_id w)"
    by (simp add: video_by_id_def find_set_status)
  then have s: "video_by_id video_id (snd (process_video_task ffmpeg_run video_id w))
           = Some (v\<lparr>status := ''error''\<rparr>)"
    using assms(3) by (simp add: process_video_task_alt)
  have ev: "events (snd (process_video_task ffmpeg_run video_id w))
           = (if next_fault (bus_faults w) then events w
              else events w @ [(''video.error'',
                     \<lparr>ev_video_id = video_id, ev_user_id = user_id v, ev_error = Some msg\<rparr>)])"
    using found(4) by (simp add: process_video_task_alt)
  have retry: "n = 60 \<and> e = DatabaseError
            \<and> (next_fault (db_faults w2) \<or> next_fault (tl (db_faults w2))
               \<or> next_fault (tl (tl (db_faults w2))))"
    if "fst (process_video_task ffmpeg_run2 video_id2 w2) = Retry e n" for e n
  proof -
    from that have "fst (process_video ffmpeg_run2 video_id2 w2) = Inl e \<and> n = 60"
      by (auto simp: process_video_task_alt split: sum.splits)
    then show ?thesis using process_video_raises [of ffmpeg_run2 video_id2 w2 e] by simp
  qed
  show ?thesis using r s ev retry by (intro conjI allI impI) simp_all
qed

theorem conversion_failure_is_terminal_at_once_witness:
  "fst (process_video_task failing_ffmpeg 1 demo_world) = Success ''completed'' 1
   \<and> video_by_id 1 (snd (process_video_task failing_ffmpeg 1 demo_world))
       = Some \<lparr>v_id = 1, filename = ''a.mp4'', user_id = 1, status = ''error''\<rparr>"
proof -
  note t = conversion_failure_is_terminal_at_once
             [where ffmpeg_run = failing_ffmpeg, OF demo_no_db_faults demo_job1 demo_job1_failing]
  have "fst (process_video_task failing_ffmpeg 1 demo_world) = Success ''completed'' 1"
    by (rule t [THEN conjunct1])
  moreover have "video_by_id 1 (snd (process_video_task failing_ffmpeg 1 demo_world))
       = Some (\<lparr>v_id = 1, filename = ''a.mp4'', user_id = 1, status = ''queued''\<rparr>
                \<lparr>status := ''error''\<rparr>)"
    by (rule t [THEN conjunct2, THEN conjunct1])
  ultimately show ?thesis by simp
qed

theorem conversion_failure_no_retry_counterexample:
  "map_option status (video_by_id 1 demo_world) = Some ''queued''
   \<and> fst (failing_ffmpeg (files demo_world) ''uploads/a.mp4'' ''processed/1_converted.mp4'')
       = Some ''Invalid data found when processing input''
   \<and> fst (process_video_task failing_ffmpeg 1 demo_world) = Success ''completed'' 1
   \<and> map_option status (video_by_id 1 (snd (process_video_task failing_ffmpeg 1 demo_world)))
       = Some ''error''
   \<and> events (snd (process_video_task failing_ffmpeg 1 demo_world))
       = [(''video.error'', \<lparr>ev_video_id = 1, ev_user_id = 1,
             ev_error = Some ''Invalid data found when processing input''\<rparr>)]"
proof -
  note found = process_video_found
    [where ffmpeg_run = failing_ffmpeg, OF demo_no_db_faults demo_job1 demo_job1_failing]
  have a: "map_option status (video_by_id 1 demo_world) = Some ''queued''"
    by (simp add: demo_job1)
  have b: "fst (failing_ffmpeg (files demo_world) ''uploads/a.mp4'' ''processed/1_converted.mp4'')
       = Some ''Invalid data found when processing input''"
    by (simp add: failing_ffmpeg_def)
  have c: "fst (process_video_task failing_ffmpeg 1 demo_world) = Success ''completed'' 1"
    using found(1) by (simp add: process_video_task_alt)
  have "videos (snd (process_video failing_ffmpeg 1 demo_world))
        = set_status 1 ''error'' (videos demo_world)"
    using found(2) by simp
  then have d: "map_option status (video_by_id 1 (snd (process_video_task failing_ffmpeg 1 demo_world)))
       = Some ''error''"
    by (simp add: process_video_task_alt video_by_id_def set_status_def demo_world_def
        demo_videos_def)
  have e: "events (snd (process_video_task failing_ffmpeg 1 demo_world))
       = [(''video.error'', \<lparr>ev_video_id = 1, ev_user_id = 1,
             ev_error = Some ''Invalid data found when processing input''\<rparr>)]"
    using found(4) by (simp add: process_video_task_alt demo_world_def next_fault_def)
  from a b c d e show ?thesis by (intro conjI)
qed

section \<open>Jobs in a terminal state\<close>

lemma demo_job3: "video_by_id 3 demo_world
    = Some \<lparr>v_id = 3, filename = ''c.mkv'', user_id = 1, status = ''completed''\<rparr>"
  by (simp add: video_by_id_def demo_world_def demo_videos_def)

lemma demo_job3_paths:
  "video_input_path \<lparr>v_id = 3, filename = ''c.mkv'', user_id = 1, status = s\<rparr> = ''uploads/c.mkv''"
  "video_output_path 3 = ''processed/3_converted.mp4''"
  by (simp_all add: video_input_path_def video_output_path_def os_path_join_def UPLOAD_DIR_def
      PROCESSED_DIR_def str_int_def str_nat.simps digit_char_def)

lemma demo_job3_run:
  "demo_ffmpeg (files demo_world)
     (video_input_path \<lparr>v_id = 3, filename = ''c.mkv'', user_id = 1, status = ''completed''\<rparr>)
     (video_output_path 3)
   = (Some ''File already exists'', files demo_world)"
  unfolding demo_job3_paths by (simp add: demo_ffmpeg_def demo_world_def)

text \<open>
  Claim C2, as the code has it. \<open>process_video\<close> does not look at the state of the job.
  For a job already in a terminal state (the lookup and the commit succeeding) it runs
  the converter again, commits \<^verbatim>\<open>completed\<close> when that run succeeds and \<^verbatim>\<open>error\<close>
  when it fails, whatever the state was, and, unless the event bus fails, publishes the
  event of that outcome again.
\<close>

theorem terminal_job_is_processed_again:
  assumes "\<not> next_fault (db_faults w)" and "\<not> next_fault (tl (db_faults w))"
    and "video_by_id video_id w = Some v"
    and "status v = ''completed'' \<or> status v = ''error''"
    and "ffmpeg_run (files w) (video_input_path v) (video_output_path video_id) = (r, fs)"
  shows "fst (process_video ffmpeg_run video_id w) = Inr ()
       \<and> (\<exists>rest. trace (snd (process_video ffmpeg_run video_id w))
             = trace w @ Convert (video_input_path v) (video_output_path video_id) (r = None) # rest)
       \<and> files (snd (process_video ffmpeg_run video_id w)) = fs
       \<and> video_by_id video_id (snd (process_video ffmpeg_run video_id w))
           = Some (v\<lparr>status := if r = None then ''completed'' else ''error''\<rparr>)
       \<and> commits (trace (snd (process_video ffmpeg_run video_id w)))
           = commits (trace w) @ [(video_id, if r = None then ''completed'' else ''error'')]
       \<and> events (snd (process_video ffmpeg_run video_id w))
           = (if next_fault (bus_faults w) then events w
              else events w @
                [(if r = None then ''video.completed'' else ''video.error'',
                  \<lparr>ev_video_id = video_id, ev_user_id = user_id v, ev_error = r\<rparr>)])"
proof -
  note found = process_video_found [where ffmpeg_run = ffmpeg_run, OF assms(1,2,3,5)]
  have "video_by_id video_id (snd (process_video ffmpeg_run video_id w))
        = map_option (\<lambda>v. v\<lparr>status := if r = None then ''completed'' else ''error''\<rparr>)
            (video_by_id video_id w)"
    unfolding video_by_id_def found(2) by (rule find_set_status)
  then have s: "video_by_id video_id (snd (process_video ffmpeg_run video_id w))
           = Some (v\<lparr>status := if r = None then ''completed'' else ''error''\<rparr>)"
    using assms(3) by simp
  from found(1) found(6) found(3) s found(5) found(4) show ?thesis by (intro conjI)
qed

theorem terminal_job_is_processed_again_witness:
  "fst (process_video demo_ffmpeg 3 demo_world) = Inr ()
   \<and> video_by_id 3 (snd (process_video demo_ffmpeg 3 demo_world))
       = Some \<lparr>v_id = 3, filename = ''c.mkv'', user_id = 1, status = ''error''\<rparr>"
proof -
  have st: "status \<lparr>v_id = 3, filename = ''c.mkv'', user_id = 1, status = ''completed''\<rparr> = ''completed''
          \<or> status \<lparr>v_id = 3, filename = ''c.mkv'', user_id = 1, status = ''completed''\<rparr> = ''error''"
    by simp
  note t = terminal_job_is_processed_again
             [where ffmpeg_run = demo_ffmpeg, OF demo_no_db_faults demo_job3 st demo_job3_run]
  have "fst (process_video demo_ffmpeg 3 demo_world) = Inr ()"
    by (rule t [THEN conjunct1])
  moreover have "video_by_id 3 (snd (process_video demo_ffmpeg 3 demo_world))
       = Some (\<lparr>v_id = 3, filename = ''c.mkv'', user_id = 1, status = ''completed''\<rparr>
                \<lparr>status := if Some ''File already exists'' = None then ''completed'' else ''error''\<rparr>)"
    by (rule t [THEN conjunct2, THEN conjunct2, THEN conjunct2, THEN conjunct1])
  ultimately show ?thesis by simp
qed

theorem terminal_job_not_idempotent_counterexample:
  "map_option status (video_by_id 3 demo_world) = Some ''completed''
   \<and> fst (process_video demo_ffmpeg 3 demo_world) = Inr ()
   \<and> map_option status (video_by_id 3 (snd (process_video demo_ffmpeg 3 demo_world)))
       = Some ''error''
   \<and> events demo_world = []
   \<and> events (snd (process_video demo_ffmpeg 3 demo_world))
       = [(''video.error'', \<lparr>ev_video_id = 3, ev_user_id = 1,
             ev_error = Some ''File already exists''\<rparr>)]
   \<and> commits (trace (snd (process_video demo_ffmpeg 3 demo_world))) = [(3, ''error'')]"
proof -
  note found = process_video_found
    [where ffmpeg_run = demo_ffmpeg, OF demo_no_db_faults demo_job3 demo_job3_run]
  have a: "map_option status (video_by_id 3 demo_world) = Some ''completed''"
    by (simp add: demo_job3)
  have "videos (snd (process_video demo_ffmpeg 3 demo_world))
        = set_status 3 ''error'' (videos demo_world)"
    using found(2) by simp
  then have c: "map_option status (video_by_id 3 (snd (process_video demo_ffmpeg 3 demo_world)))
       = Some ''error''"
    by (simp add: video_by_id_def set_status_def demo_world_def demo_videos_def)
  have d: "events demo_world = []" by (simp add: demo_world_def)
  have e: "events (snd (process_video demo_ffmpeg 3 demo_world))
       = [(''video.error'', \<lparr>ev_video_id = 3, ev_user_id = 1,
             ev_error = Some ''File already exists''\<rparr>)]"
    using found(4) by (simp add: demo_world_def next_fault_def)
  have f: "commits (trace (snd (process_video demo_ffmpeg 3 demo_world))) = [(3, ''error'')]"
    using found(5) by (simp add: demo_world_def)
  from a found(1) c d e f show ?thesis by (intro conjI)
qed

section \<open>The states a job goes through\<close>

lemma demo_job1_run:
  "demo_ffmpeg (files demo_world)
     (video_input_path \<lparr>v_id = 1, filename = ''a.mp4'', user_id = 1, status = ''queued''\<rparr>)
     (video_output_path 1)
   = (None, (files demo_world)(''processed/1_converted.mp4'' \<mapsto> Raw ''aaa''))"
  unfolding demo_job1_paths by (simp add: demo_ffmpeg_def demo_world_def)

text \<open>
  Claim C3, as the code has it. A job is created in state \<^verbatim>\<open>queued\<close>. The worker never
  writes \<^verbatim>\<open>processing\<close>: a run of \<open>process_video\<close> commits at most one status, which is
  \<^verbatim>\<open>completed\<close> or \<^verbatim>\<open>error\<close> and is the status of the job it was given, directly from
  the state that job had, and it leaves every other job as it was.
\<close>

theorem job_states_written_by_the_code:
  "((commits (trace (snd (process_video ffmpeg_run video_id w))) = commits (trace w)
      \<and> videos (snd (process_video ffmpeg_run video_id w)) = videos w)
    \<or> (commits (trace (snd (process_video ffmpeg_run video_id w)))
          = commits (trace w) @ [(video_id, ''completed'')]
        \<and> videos (snd (process_video ffmpeg_run video_id w))
          = set_status video_id ''completed'' (videos w))
    \<or> (commits (trace (snd (process_video ffmpeg_run video_id w)))
          = commits (trace w) @ [(video_id, ''error'')]
        \<and> videos (snd (process_video ffmpeg_run video_id w))
          = set_status video_id ''error'' (videos w)))
   \<and> (\<forall>j. j \<noteq> video_id \<longrightarrow>
          video_by_id j (snd (process_video ffmpeg_run video_id w)) = video_by_id j w)
   \<and> (upload_video file current_user w0 = (Inr (job_id, st), w1) \<longrightarrow>
          commits (trace w1) = commits (trace w0) @ [(job_id, ''queued'')]
        \<and> map_option status (video_by_id job_id w1) = Some ''queued'')"
proof -
  let ?w' = "snd (process_video ffmpeg_run video_id w)"
  note step = process_video_step [of ffmpeg_run video_id w]
  have others: "video_by_id j ?w' = video_by_id j w" if "j \<noteq> video_id" for j
    using process_video_videos [of ffmpeg_run video_id w] that
    by (auto simp: video_by_id_def find_set_status_other)
  have created: "commits (trace w1) = commits (trace w0) @ [(job_id, ''queued'')]
        \<and> map_option status (video_by_id job_id w1) = Some ''queued''"
    if up: "upload_video file current_user w0 = (Inr (job_id, st), w1)"
  proof -
    from upload_video_success [OF up] obtain user final_filename where
      all: "user_by_name current_user w0 = Some user
         \<and> fst (saved_upload file (w0\<lparr>db_faults := tl (db_faults w0)\<rparr>)) = Inr final_filename
         \<and> (job_id, st) = (fresh_id (videos w0), ''queued'')
         \<and> videos w1 = videos w0 @ [\<lparr>v_id = fresh_id (videos w0), filename = final_filename,
                                     user_id = u_id user, status = DEFAULT_STATUS\<rparr>]
         \<and> trace w1 = trace w0 @ [DbCommit (fresh_id (videos w0)) DEFAULT_STATUS,
                                  CacheDelete (status_cache_key current_user)
                                    (\<not> next_fault (cache_faults w0)),
                                  Enqueue (fresh_id (videos w0))]
         \<and> queue w1 = queue w0 @ [fresh_id (videos w0)]
         \<and> cache w1 = (if next_fault (cache_faults w0) then cache w0
                        else (cache w0)(status_cache_key current_user := None))
         \<and> files w1 = files (snd (saved_upload file (w0\<lparr>db_faults := tl (db_faults w0)\<rparr>)))
         \<and> users w1 = users w0 \<and> events w1 = events w0"
      by (elim exE) (rule that)
    from all have id: "job_id = fresh_id (videos w0)" by simp
    from all have tr: "trace w1 = trace w0 @ [DbCommit (fresh_id (videos w0)) DEFAULT_STATUS,
                                  CacheDelete (status_cache_key current_user)
                                    (\<not> next_fault (cache_faults w0)),
                                  Enqueue (fresh_id (videos w0))]" by simp
    from all have vs: "videos w1 = videos w0 @ [\<lparr>v_id = fresh_id (videos w0), filename = final_filename,
                                     user_id = u_id user, status = DEFAULT_STATUS\<rparr>]" by simp
    have c: "commits (trace w1) = commits (trace w0) @ [(job_id, ''queued'')]"
      unfolding tr id by (simp add: DEFAULT_STATUS_def)
    have "find (\<lambda>v. v_id v = job_id) (videos w1) =
          Some \<lparr>v_id = fresh_id (videos w0), filename = final_filename,
                user_id = u_id user, status = DEFAULT_STATUS\<rparr>"
      unfolding vs id by (intro find_append_new find_fresh_None) simp
    then have "map_option status (video_by_id job_id w1) = Some ''queued''"
      by (simp add: video_by_id_def DEFAULT_STATUS_def)
    with c show ?thesis by simp
  qed
  from step others created show ?thesis by (intro conjI allI impI) simp_all
qed

theorem job_states_written_by_the_code_witness:
  "upload_video demo_upload ''ann'' demo_world
     = (Inr (4, ''queued''), snd (upload_video demo_upload ''ann'' demo_world))
   \<and> commits (trace (snd (upload_video demo_upload ''ann'' demo_world)))
       = commits (trace demo_world) @ [(4, ''queued'')]
   \<and> map_option status (video_by_id 4 (snd (upload_video demo_upload ''ann'' demo_world)))
       = Some ''queued''
   \<and> video_by_id 2 (snd (process_video demo_ffmpeg 1 demo_world)) = video_by_id 2 demo_world"
proof -
  have e: "upload_video demo_upload ''ann'' demo_world
           = (Inr (4, ''queued''), snd (upload_video demo_upload ''ann'' demo_world))"
    using demo_upload_result by (simp add: prod_eq_iff)
  note t = job_states_written_by_the_code
    [where ?ffmpeg_run = demo_ffmpeg and ?video_id = 1 and ?w = demo_world
       and ?file = demo_upload and ?current_user = "''ann''" and ?w0.0 = demo_world
       and ?job_id = 4 and ?st = "''queued''"
       and ?w1.0 = "snd (upload_video demo_upload ''ann'' demo_world)"]
  have created: "commits (trace (snd (upload_video demo_upload ''ann'' demo_world)))
       = commits (trace demo_world) @ [(4, ''queued'')]
   \<and> map_option status (video_by_id 4 (snd (upload_video demo_upload ''ann'' demo_world)))
       = Some ''queued''"
    by (rule t [THEN conjunct2, THEN conjunct2, THEN mp, OF e])
  have ne: "(2::int) \<noteq> 1" by simp
  have other: "video_by_id 2 (snd (process_video demo_ffmpeg 1 demo_world)) = video_by_id 2 demo_world"
    by (rule t [THEN conjunct2, THEN conjunct1, THEN spec, THEN mp, OF ne])
  from e created other show ?thesis by (intro conjI) simp_all
qed

lemma demo_job1_after:
  "video_by_id 1 (snd (process_video demo_ffmpeg 1 demo_world))
     = Some \<lparr>v_id = 1, filename = ''a.mp4'', user_id = 1, status = ''completed''\<rparr>"
  "files (snd (process_video demo_ffmpeg 1 demo_world))
     = (files demo_world)(''processed/1_converted.mp4'' \<mapsto> Raw ''aaa'')"
  "\<not> next_fault (db_faults (snd (process_video demo_ffmpeg 1 demo_world)))"
  "\<not> next_fault (tl (db_faults (snd (process_video demo_ffmpeg 1 demo_world))))"
  "commits (trace (snd (process_video demo_ffmpeg 1 demo_world))) = [(1, ''completed'')]"
proof -
  note found = process_video_found
    [where ffmpeg_run = demo_ffmpeg, OF demo_no_db_faults demo_job1 demo_job1_run]
  have "videos (snd (process_video demo_ffmpeg 1 demo_world))
        = set_status 1 ''completed'' (videos demo_world)"
    using found(2) by simp
  then show "video_by_id 1 (snd (process_video demo_ffmpeg 1 demo_world))
     = Some \<lparr>v_id = 1, filename = ''a.mp4'', user_id = 1, status = ''completed''\<rparr>"
    by (simp add: video_by_id_def set_status_def demo_world_def demo_videos_def)
  show "files (snd (process_video demo_ffmpeg 1 demo_world))
     = (files demo_world)(''processed/1_converted.mp4'' \<mapsto> Raw ''aaa'')"
    by (rule found(3))
  have d: "db_faults (snd (process_video demo_ffmpeg 1 demo_world)) = []"
    using found(7) by (simp add: demo_world_def)
  show "\<not> next_fault (db_faults (snd (process_video demo_ffmpeg 1 demo_world)))"
    "\<not> next_fault (tl (db_faults (snd (process_video demo_ffmpeg 1 demo_world))))"
    unfolding d by (simp_all add: next_fault_def)
  show "commits (trace (snd (process_video demo_ffmpeg 1 demo_world))) = [(1, ''completed'')]"
    using found(5) by (simp add: demo_world_def)
qed

lemma demo_job1_second_run:
  "demo_ffmpeg (files (snd (process_video demo_ffmpeg 1 demo_world)))
     (video_input_path \<lparr>v_id = 1, filename = ''a.mp4'', user_id = 1, status = ''completed''\<rparr>)
     (video_output_path 1)
   = (Some ''File already exists'', files (snd (process_video demo_ffmpeg 1 demo_world)))"
  unfolding demo_job1_paths demo_job1_after(2)
  by (simp add: demo_ffmpeg_def demo_world_def)

theorem job_skips_processing_counterexample:
  "map_option status (video_by_id 1 demo_world) = Some ''queued''
   \<and> commits (trace demo_world) = []
   \<and> commits (trace (snd (process_video demo_ffmpeg 1 demo_world))) = [(1, ''completed'')]
   \<and> map_option status (video_by_id 1 (snd (process_video demo_ffmpeg 1 demo_world)))
       = Some ''completed''
   \<and> commits (trace (snd (process_video demo_ffmpeg 1
                             (snd (process_video demo_ffmpeg 1 demo_world)))))
       = [(1, ''completed''), (1, ''error'')]"
proof -
  note again = process_video_found
    [where ffmpeg_run = demo_ffmpeg, OF demo_job1_after(3,4,1) demo_job1_second_run]
  have a: "map_option status (video_by_id 1 demo_world) = Some ''queued''"
    by (simp add: demo_job1)
  have b: "commits (trace demo_world) = []" by (simp add: demo_world_def)
  have c: "map_option status (video_by_id 1 (snd (process_video demo_ffmpeg 1 demo_world)))
       = Some ''completed''"
    by (simp add: demo_job1_after(1))
  have d: "commits (trace (snd (process_video demo_ffmpeg 1
                             (snd (process_video demo_ffmpeg 1 demo_world)))))
       = [(1, ''completed''), (1, ''error'')]"
    using again(5) by (simp add: demo_job1_after(5))
  from a b demo_job1_after(5) c d show ?thesis by (intro conjI)
qed

section \<open>Failures of the cache and of the event bus\<close>

lemma saved_upload_fst: "fst (saved_upload file w1) = fst (saved_upload file w2)"
  by (simp add: saved_upload_def Let_def
      split: fdata.splits list.splits option.splits entry.splits)

lemma upload_video_depends:
  assumes "db_faults w1 = db_faults w2" "broker_faults w1 = broker_faults w2"
    and "users w1 = users w2" "videos w1 = videos w2" "queue w1 = queue w2"
  shows "fst (upload_video file current_user w1) = fst (upload_video file current_user w2)"
    and "videos (snd (upload_video file current_user w1))
         = videos (snd (upload_video file current_user w2))"
    and "queue (snd (upload_video file current_user w1))
         = queue (snd (upload_video file current_user w2))"
proof -
  let ?a = "w1\<lparr>db_faults := tl (db_faults w1)\<rparr>"
  let ?b = "w2\<lparr>db_faults := tl (db_faults w2)\<rparr>"
  have s: "fst (saved_upload file ?a) = fst (saved_upload file ?b)"
    by (rule saved_upload_fst)
  show "fst (upload_video file current_user w1) = fst (upload_video file current_user w2)"
    unfolding upload_video_saved db_call_def broker_call_def Let_def user_by_name_def
    using assms s
    by (auto simp: split_beta split: option.splits sum.splits bool.splits)
  show "videos (snd (upload_video file current_user w1))
         = videos (snd (upload_video file current_user w2))"
    unfolding upload_video_saved db_call_def broker_call_def Let_def user_by_name_def
    using assms s
    by (auto simp: split_beta split: option.splits sum.splits bool.splits)
  show "queue (snd (upload_video file current_user w1))
         = queue (snd (upload_video file current_user w2))"
    unfolding upload_video_saved db_call_def broker_call_def Let_def user_by_name_def
    using assms s
    by (auto simp: split_beta split: option.splits sum.splits bool.splits)
qed

lemma get_status_miss:
  assumes "fst (get_cached_status current_user w) = None"
  shows "fst (get_status current_user w) =
           (if next_fault (db_faults w) then Inl DatabaseError
            else case user_by_name current_user w of
                   None \<Rightarrow> Inl AttributeError
                 | Some user \<Rightarrow>
                     if next_fault (tl (db_faults w)) then Inl DatabaseError
                     else Inr (map (\<lambda>v. (v_id v, filename v, status v))
                                 (filter (\<lambda>v. user_id v = u_id user) (videos w))))"
    and "videos (snd (get_status current_user w)) = videos w"
  using assms
  unfolding get_status_def get_cached_status_def cache_call_def db_call_def Let_def
    user_by_name_def
  by (auto simp: split_beta split: option.splits bool.splits)

lemma get_cached_status_error:
  "next_fault (cache_faults w) \<Longrightarrow> fst (get_cached_status current_user w) = None"
  by (simp add: get_cached_status_def cache_call_def)

lemma get_cached_status_empty:
  "fst (get_cached_status current_user (w\<lparr>cache := Map.empty, cache_faults := []\<rparr>)) = None"
  by (simp add: get_cached_status_def cache_call_def next_fault_def)

lemma get_status_write_error:
  "fst (get_status current_user (w\<lparr>cache_faults := False # cf\<rparr>))
   = fst (get_status current_user (w\<lparr>cache_faults := [False]\<rparr>))"
  unfolding get_status_def get_cached_status_def cache_call_def db_call_def Let_def
    user_by_name_def
  by (auto simp: split_beta next_fault_def split: option.splits bool.splits)

text \<open>
  Claim C6. A failure of the cache or of the event bus changes neither the result of the
  operation it occurs in nor what that operation commits.
  \<^item> A status read whose cache lookup raises gives the result of a read that misses a
    working cache, and leaves the store alone; with a reachable store and a known
    principal this result is the list of the principal's jobs as the store has them,
    whether or not the following cache write raises too.
  \<^item> Whether the cache write of a status read raises or not, the read gives the same
    result.
  \<^item> Whatever the cache does during a submission, the submission gives the same result,
    the same rows and the same queue.
  \<^item> Whatever the cache and the event bus do during a run of the worker, the run returns
    or raises the same and commits the same rows; the cache invalidation is the same
    whatever the event bus does, and the events are the same whatever the cache does.
\<close>

theorem dependency_failures_are_absorbed:
  "(next_fault (cache_faults w) \<longrightarrow>
      fst (get_status current_user w)
        = fst (get_status current_user (w\<lparr>cache := Map.empty, cache_faults := []\<rparr>))
    \<and> videos (snd (get_status current_user w)) = videos w)
   \<and> (next_fault (cache_faults w) \<and> \<not> next_fault (db_faults w)
      \<and> \<not> next_fault (tl (db_faults w)) \<and> user_by_name current_user w = Some user \<longrightarrow>
      fst (get_status current_user w)
        = Inr (map (\<lambda>v. (v_id v, filename v, status v))
                 (filter (\<lambda>v. user_id v = u_id user) (videos w))))
   \<and> fst (get_status current_user (w\<lparr>cache_faults := False # cf\<rparr>))
       = fst (get_status current_user (w\<lparr>cache_faults := [False]\<rparr>))
   \<and> fst (upload_video file current_user (w\<lparr>cache_faults := cf\<rparr>))
       = fst (upload_video file current_user w)
   \<and> videos (snd (upload_video file current_user (w\<lparr>cache_faults := cf\<rparr>)))
       = videos (snd (upload_video file current_user w))
   \<and> queue (snd (upload_video file current_user (w\<lparr>cache_faults := cf\<rparr>)))
       = queue (snd (upload_video file current_user w))
   \<and> fst (process_video ffmpeg_run video_id (w\<lparr>cache_faults := cf, bus_faults := bf\<rparr>))
       = fst (process_video ffmpeg_run video_id w)
   \<and> videos (snd (process_video ffmpeg_run video_id (w\<lparr>cache_faults := cf, bus_faults := bf\<rparr>)))
       = videos (snd (process_video ffmpeg_run video_id w))
   \<and> cache (snd (process_video ffmpeg_run video_id (w\<lparr>bus_faults := bf\<rparr>)))
       = cache (snd (process_video ffmpeg_run video_id w))
   \<and> events (snd (process_video ffmpeg_run video_id (w\<lparr>cache_faults := cf\<rparr>)))
       = events (snd (process_video ffmpeg_run video_id w))"
proof -
  let ?healthy = "w\<lparr>cache := Map.empty, cache_faults := []\<rparr>"
  have lookup: "fst (get_status current_user w) = fst (get_status current_user ?healthy)
              \<and> videos (snd (get_status current_user w)) = videos w"
    if f: "next_fault (cache_faults w)"
  proof -
    have m1: "fst (get_cached_status current_user w) = None"
      using f by (rule get_cached_status_error)
    have m2: "fst (get_cached_status current_user ?healthy) = None"
      by (rule get_cached_status_empty)
    show ?thesis
      unfolding get_status_miss(1) [OF m1] get_status_miss(1) [OF m2] get_status_miss(2) [OF m1]
      by (simp add: user_by_name_def split: option.splits)
  qed
  have fallback: "fst (get_status current_user w)
        = Inr (map (\<lambda>v. (v_id v, filename v, status v))
                 (filter (\<lambda>v. user_id v = u_id user) (videos w)))"
    if h: "next_fault (cache_faults w) \<and> \<not> next_fault (db_faults w)
      \<and> \<not> next_fault (tl (db_faults w)) \<and> user_by_name current_user w = Some user"
  proof -
    have m1: "fst (get_cached_status current_user w) = None"
      using h by (intro get_cached_status_error) simp
    show ?thesis unfolding get_status_miss(1) [OF m1] using h by simp
  qed
  have setex: "fst (get_status current_user (w\<lparr>cache_faults := False # cf\<rparr>))
       = fst (get_status current_user (w\<lparr>cache_faults := [False]\<rparr>))"
    by (rule get_status_write_error)
  have up1: "fst (upload_video file current_user (w\<lparr>cache_faults := cf\<rparr>))
       = fst (upload_video file current_user w)"
    by (rule upload_video_depends(1)) simp_all
  have up2: "videos (snd (upload_video file current_user (w\<lparr>cache_faults := cf\<rparr>)))
       = videos (snd (upload_video file current_user w))"
    by (rule upload_video_depends(2)) simp_all
  have up3: "queue (snd (upload_video file current_user (w\<lparr>cache_faults := cf\<rparr>)))
       = queue (snd (upload_video file current_user w))"
    by (rule upload_video_depends(3)) simp_all
  have p1: "fst (process_video ffmpeg_run video_id (w\<lparr>cache_faults := cf, bus_faults := bf\<rparr>))
       = fst (process_video ffmpeg_run video_id w)"
    by (rule process_video_depends(1)) simp_all
  have p2: "videos (snd (process_video ffmpeg_run video_id (w\<lparr>cache_faults := cf, bus_faults := bf\<rparr>)))
       = videos (snd (process_video ffmpeg_run video_id w))"
    by (rule process_video_depends(2)) simp_all
  have p3: "cache (snd (process_video ffmpeg_run video_id (w\<lparr>bus_faults := bf\<rparr>)))
       = cache (snd (process_video ffmpeg_run video_id w))"
    by (rule process_video_depends_cache) simp_all
  have p4: "events (snd (process_video ffmpeg_run video_id (w\<lparr>cache_faults := cf\<rparr>)))
       = events (snd (process_video ffmpeg_run video_id w))"
    by (rule process_video_depends_events) simp_all
  from lookup fallback setex up1 up2 up3 p1 p2 p3 p4 show ?thesis
    by (intro conjI impI) simp_all
qed

theorem dependency_failures_are_absorbed_witness:
  "next_fault (cache_faults demo_cache_down)
   \<and> cache demo_cache_down (status_cache_key ''ann'') = Some (120, [])
   \<and> fst (get_status ''ann'' demo_cache_down)
       = Inr [(1, ''a.mp4'', ''queued''), (3, ''c.mkv'', ''completed'')]"
proof -
  have a: "next_fault (cache_faults demo_cache_down)"
    by (simp add: demo_cache_down_def next_fault_def)
  have b: "cache demo_cache_down (status_cache_key ''ann'') = Some (120, [])"
    by (simp add: demo_cache_down_def)
  have h: "next_fault (cache_faults demo_cache_down) \<and> \<not> next_fault (db_faults demo_cache_down)
      \<and> \<not> next_fault (tl (db_faults demo_cache_down))
      \<and> user_by_name ''ann'' demo_cache_down = Some \<lparr>u_id = 1, username = ''ann''\<rparr>"
    by (simp add: demo_cache_down_def demo_world_def demo_users_def next_fault_def
        user_by_name_def)
  note t = dependency_failures_are_absorbed
    [where ?w = demo_cache_down and ?current_user = "''ann''"
       and ?user = "\<lparr>u_id = 1, username = ''ann''\<rparr>"]
  have "fst (get_status ''ann'' demo_cache_down)
        = Inr (map (\<lambda>v. (v_id v, filename v, status v))
                 (filter (\<lambda>v. user_id v = u_id \<lparr>u_id = 1, username = ''ann''\<rparr>)
                    (videos demo_cache_down)))"
    by (rule t [THEN conjunct2, THEN conjunct1, THEN mp, OF h])
  then have c: "fst (get_status ''ann'' demo_cache_down)
       = Inr [(1, ''a.mp4'', ''queued''), (3, ''c.mkv'', ''completed'')]"
    by (simp add: demo_cache_down_def demo_world_def demo_videos_def)
  from a b c show ?thesis by (intro conjI)
qed

end
